theory Spec2Isabelle
  imports Main
begin

section \<open>Python values and built-ins used by \<^verbatim>\<open>music_bot.py\<close>\<close>

text \<open>
  A Python string is modelled as a \<^typ>\<open>string\<close>, the list of its code points: one
  \<^typ>\<open>char\<close> is one code point, so the model covers the strings whose code points lie
  in U+0000 .. U+00FF (ASCII and Latin-1), and indexing, slicing and \<^verbatim>\<open>len\<close> count
  code points as Python does. Strings with code points above U+00FF are outside the
  model. Python integers are \<^typ>\<open>int\<close>. Durations are integers (the float durations
  the engine may report are outside the model).
\<close>

datatype py_error =
    ValueError
  | KeyError
  | TypeError
  | OverflowError
  | EngineError
  | TransportError

datatype 'a outcome = Raised py_error | Returned 'a

subsection \<open>\<^verbatim>\<open>str(n)\<close>, \<^verbatim>\<open>str.split\<close> and \<^verbatim>\<open>int(s)\<close>\<close>

definition digit_char :: "nat \<Rightarrow> char" where
  "digit_char d = ''0123456789'' ! d"

fun str_nat :: "nat \<Rightarrow> string" where
  "str_nat n = (if n < 10 then [digit_char n] else str_nat (n div 10) @ [digit_char (n mod 10)])"

declare str_nat.simps [simp del]

definition py_str :: "int \<Rightarrow> string" where
  "py_str i = (if i < 0 then CHR ''-'' # str_nat (nat (- i)) else str_nat (nat i))"

definition is_digit :: "char \<Rightarrow> bool" where
  "is_digit c = (c \<in> set ''0123456789'')"

definition digit_val :: "char \<Rightarrow> nat" where
  "digit_val c = of_char c - 48"

text \<open>
  The code points below U+0100 that \<^verbatim>\<open>int\<close> drops around a number: the ASCII
  blanks (space and U+0009 .. U+000D), NEL (U+0085) and the no-break space (U+00A0).
\<close>

definition is_space :: "char \<Rightarrow> bool" where
  "is_space c =
     (c \<in> {CHR '' '', CHR 0x09, CHR 0x0A, CHR 0x0B, CHR 0x0C, CHR 0x0D, CHR 0x85, CHR 0xA0})"

definition py_strip :: "string \<Rightarrow> string" where
  "py_strip s = rev (dropWhile is_space (rev (dropWhile is_space s)))"

definition digits_val :: "string \<Rightarrow> nat" where
  "digits_val ds = foldl (\<lambda>a c. 10 * a + digit_val c) 0 ds"

text \<open>\<^verbatim>\<open>s.split(sep)\<close> for a separator of one character.\<close>

fun py_split :: "char \<Rightarrow> string \<Rightarrow> string list" where
  "py_split sep [] = [[]]"
| "py_split sep (c # cs) =
     (if c = sep then [] # py_split sep cs
      else (c # hd (py_split sep cs)) # tl (py_split sep cs))"

text \<open>
  The digits of an integer literal: groups of decimal digits (the only decimal digits
  below U+0100 are \<^verbatim>\<open>0\<close> .. \<^verbatim>\<open>9\<close>), with single underscores allowed between
  groups.
\<close>

definition parse_digits :: "string \<Rightarrow> py_error + nat" where
  "parse_digits ds =
     (let groups = py_split (CHR ''_'') ds
      in if list_all (\<lambda>g. g \<noteq> [] \<and> list_all is_digit g) groups
         then Inr (digits_val (concat groups)) else Inl ValueError)"

text \<open>
  \<^verbatim>\<open>int(s)\<close>: surrounding whitespace is dropped, one sign is allowed, and the digits
  must follow; anything else is a \<^verbatim>\<open>ValueError\<close>. (The bound that newer Python
  versions put on literals of more than 4300 digits is not modelled; callback data is
  at most 64 bytes long.)
\<close>

definition py_int :: "string \<Rightarrow> py_error + int" where
  "py_int s =
     (case py_strip s of
        [] \<Rightarrow> Inl ValueError
      | c # r \<Rightarrow>
          if c = CHR ''-'' then map_sum id (\<lambda>n. - int n) (parse_digits r)
          else if c = CHR ''+'' then map_sum id int (parse_digits r)
          else map_sum id int (parse_digits (c # r)))"

subsection \<open>\<^verbatim>\<open>str.startswith\<close>, \<^verbatim>\<open>str.lstrip\<close>, slices\<close>

definition startswith :: "string \<Rightarrow> string \<Rightarrow> bool" where
  "startswith s p = (take (length p) s = p)"

definition lstrip :: "string \<Rightarrow> string \<Rightarrow> string" where
  "lstrip s cs = dropWhile (\<lambda>c. c \<in> set cs) s"

text \<open>\<^verbatim>\<open>xs[a:b]\<close>: a negative bound counts from the end, and both bounds are clamped.\<close>

definition slice_bound :: "nat \<Rightarrow> int \<Rightarrow> nat" where
  "slice_bound n i = (if i < 0 then nat (max (int n + i) 0) else min (nat i) n)"

definition py_slice :: "'a list \<Rightarrow> int \<Rightarrow> int \<Rightarrow> 'a list" where
  "py_slice xs a b =
     (let lo = slice_bound (length xs) a; hi = slice_bound (length xs) b
      in take (hi - lo) (drop lo xs))"

subsection \<open>\<^verbatim>\<open>str(timedelta(seconds=n))\<close>\<close>

definition pad2 :: "int \<Rightarrow> string" where
  "pad2 n = (if n < 10 then CHR ''0'' # py_str n else py_str n)"

text \<open>
  A \<^verbatim>\<open>timedelta\<close> is normalised to days and seconds of the day (floor division), refuses
  more than 999999999 days, and prints as \<^verbatim>\<open>[D day[s], ]H:MM:SS\<close>.
\<close>

definition timedelta_str :: "int \<Rightarrow> py_error + string" where
  "timedelta_str secs =
     (let days = secs div 86400;
          s = secs mod 86400;
          hh = s div 3600;
          mm = (s div 60) mod 60;
          ss = s mod 60;
          hms = py_str hh @ '':'' @ pad2 mm @ '':'' @ pad2 ss
      in if \<bar>days\<bar> > 999999999 then Inl OverflowError
         else if days \<noteq> 0
              then Inr (py_str days @ '' day'' @ (if \<bar>days\<bar> \<noteq> 1 then ''s'' else '''') @ '', '' @ hms)
              else Inr hms)"

section \<open>Helper functions of the bot\<close>

definition RESULTS_PER_PAGE :: int where
  "RESULTS_PER_PAGE = 10"

text \<open>
  \<^verbatim>\<open>format_duration(seconds)\<close>: \<^verbatim>\<open>None\<close> and \<^verbatim>\<open>0\<close> are falsy and give the
  marker; anything else is printed as a \<^verbatim>\<open>timedelta\<close> and stripped of leading
  \<^verbatim>\<open>0\<close> and \<^verbatim>\<open>:\<close> characters.
\<close>

definition format_duration :: "int option \<Rightarrow> py_error + string" where
  "format_duration seconds =
     (case seconds of
        None \<Rightarrow> Inr ''??:??''
      | Some n \<Rightarrow>
          if n = 0 then Inr ''??:??''
          else map_sum id (\<lambda>s. lstrip s ''0:'') (timedelta_str n))"

text \<open>The character class of \<^verbatim>\<open>clean_filename\<close>: \<^verbatim>\<open>\ / * ? : " < > |\<close>.\<close>

definition forbidden_chars :: "char set" where
  "forbidden_chars =
     {CHR 0x5C, CHR ''/'', CHR ''*'', CHR ''?'', CHR '':'', CHR 0x22, CHR ''<'', CHR ''>'', CHR ''|''}"

definition clean_filename :: "string \<Rightarrow> string" where
  "clean_filename title = filter (\<lambda>c. c \<notin> forbidden_chars) title"

subsection \<open>\<^verbatim>\<open>str.join\<close>, \<^verbatim>\<open>str.replace\<close>, \<^verbatim>\<open>uuid4().hex[:8]\<close>\<close>

fun py_join :: "string \<Rightarrow> string list \<Rightarrow> string" where
  "py_join sep [] = []"
| "py_join sep [x] = x"
| "py_join sep (x # y # ys) = x @ sep @ py_join sep (y # ys)"

text \<open>\<^verbatim>\<open>s.replace(old, new)\<close> for a non-empty \<^verbatim>\<open>old\<close>: every occurrence, left to right.\<close>

fun py_replace :: "string \<Rightarrow> string \<Rightarrow> string \<Rightarrow> string" where
  "py_replace old new [] = []"
| "py_replace old new (c # cs) =
     (if old \<noteq> [] \<and> take (length old) (c # cs) = old
      then new @ py_replace old new (drop (length old - 1) cs)
      else c # py_replace old new cs)"

definition hex_char :: "nat \<Rightarrow> char" where
  "hex_char d = ''0123456789abcdef'' ! d"

text \<open>The first eight hexadecimal digits of a UUID: its leading 32 bits \<open>u\<close>.\<close>

definition hex8 :: "nat \<Rightarrow> string" where
  "hex8 u = map (\<lambda>i. hex_char ((u div 16 ^ (7 - i)) mod 16)) [0..<8]"

section \<open>Tracks and the catalog search\<close>

text \<open>
  A key of an engine entry is absent, present with \<^verbatim>\<open>None\<close>, or present with a value;
  \<^verbatim>\<open>d.get(k, default)\<close> uses the default only when the key is absent.
\<close>

datatype 'a field = Absent | Null | Val 'a

definition dict_get :: "'a field \<Rightarrow> 'a \<Rightarrow> 'a option" where
  "dict_get f d = (case f of Absent \<Rightarrow> Some d | Null \<Rightarrow> None | Val v \<Rightarrow> Some v)"

text \<open>
  An entry of the engine's result, a dictionary: the five keys the code reads, and
  whether the dictionary has any other key (an empty dictionary is falsy).
\<close>

record entry =
  e_id :: "string field"
  e_title :: "string field"
  e_channel :: "string field"
  e_uploader :: "string field"
  e_duration :: "int field"
  e_other_keys :: bool

definition empty_dict :: "entry \<Rightarrow> bool" where
  "empty_dict e =
     (e_id e = Absent \<and> e_title e = Absent \<and> e_channel e = Absent \<and> e_uploader e = Absent \<and>
      e_duration e = Absent \<and> \<not> e_other_keys e)"

text \<open>
  The dictionary built for each track; its keys \<^verbatim>\<open>id\<close> and \<^verbatim>\<open>video_id\<close> hold the
  same value, and \<^verbatim>\<open>source\<close> is the constant \<^verbatim>\<open>youtube\<close>.
\<close>

record track =
  video_id :: "string option"
  title :: "string option"
  artist :: "string option"
  full_name :: string
  duration :: "int option"

definition fmt :: "string option \<Rightarrow> string" where
  "fmt v = (case v of None \<Rightarrow> ''None'' | Some s \<Rightarrow> s)"

definition falsy :: "string option \<Rightarrow> bool" where
  "falsy v = (v = None \<or> v = Some [])"

definition make_track :: "entry \<Rightarrow> py_error + track" where
  "make_track e =
     (let dur = dict_get (e_duration e) 0;
          ttl = dict_get (e_title e) ''Unknown Title'';
          channel0 = dict_get (e_channel e) ''Unknown Artist'';
          channel = (if falsy channel0 then dict_get (e_uploader e) ''Unknown Artist'' else channel0)
      in case e_id e of
           Absent \<Rightarrow> Inl KeyError
         | Null \<Rightarrow>
             Inr \<lparr>video_id = None, title = ttl, artist = channel,
                  full_name = fmt channel @ '' - '' @ fmt ttl, duration = dur\<rparr>
         | Val i \<Rightarrow>
             Inr \<lparr>video_id = Some i, title = ttl, artist = channel,
                  full_name = fmt channel @ '' - '' @ fmt ttl, duration = dur\<rparr>)"

text \<open>
  The loop over \<^verbatim>\<open>info['entries']\<close>; a falsy entry (\<open>None\<close> or an empty
  dictionary) is skipped.
\<close>

fun collect_tracks :: "entry option list \<Rightarrow> track list \<Rightarrow> py_error + track list" where
  "collect_tracks [] tracks = Inr tracks"
| "collect_tracks (None # es) tracks = collect_tracks es tracks"
| "collect_tracks (Some e # es) tracks =
     (if empty_dict e then collect_tracks es tracks
      else case make_track e of
             Inl err \<Rightarrow> Inl err
           | Inr t \<Rightarrow> collect_tracks es (tracks @ [t]))"

text \<open>
  What \<^verbatim>\<open>extract_info\<close> returned for a search: \<open>None\<close> for a falsy \<^verbatim>\<open>info\<close>,
  otherwise the value of its \<^verbatim>\<open>entries\<close> key when it has one.
\<close>

type_synonym info = "entry option list option"

definition search_youtube :: "(string \<Rightarrow> info option outcome) \<Rightarrow> string \<Rightarrow> int \<Rightarrow> track list" where
  "search_youtube ydl query max_results =
     (case ydl (''ytsearch'' @ py_str max_results @ '':'' @ query) of
        Raised e \<Rightarrow> []
      | Returned None \<Rightarrow> []
      | Returned (Some None) \<Rightarrow> []
      | Returned (Some (Some es)) \<Rightarrow>
          (case collect_tracks es [] of Inl e \<Rightarrow> [] | Inr tracks \<Rightarrow> tracks))"

section \<open>Session state and the results page\<close>

text \<open>\<^verbatim>\<open>context.user_data\<close>: a dictionary in which either key may be missing.\<close>

record user_data =
  search_results :: "track list option"
  page :: "int option"

datatype caption = TrackCaption int string | Back | Forward

record button =
  caption :: caption
  callback_data :: string

record page_view =
  shown_page :: int
  shown_pages :: int
  shown_lines :: "(int \<times> string \<times> string) list"
  keyboard :: "button list list"

datatype text_msg =
    UsageHint
  | Searching string
  | NothingFound
  | SearchError py_error
  | ResultsPage page_view
  | TrackNotFound
  | Downloading string
  | DownloadFailed
  | DownloadError py_error

record audio =
  audio_path :: string
  audio_title :: string
  audio_performer :: string
  audio_caption :: string
  audio_duration :: "int option"

text \<open>What a handler does to the outside, in order.\<close>

datatype action =
    Answer
  | ReplyText text_msg
  | EditText text_msg
  | DeleteStatus
  | Download string
  | ReplyAudio audio
  | Remove string

text \<open>The loop of \<^verbatim>\<open>send_results_page\<close> over \<^verbatim>\<open>enumerate(page_tracks, start=i)\<close>.\<close>

fun render_rows :: "int \<Rightarrow> track list \<Rightarrow> py_error + ((int \<times> string \<times> string) \<times> button list) list" where
  "render_rows i [] = Inr []"
| "render_rows i (t # ts) =
     (case format_duration (duration t) of
        Inl e \<Rightarrow> Inl e
      | Inr duration_str \<Rightarrow>
          (case render_rows (i + 1) ts of
             Inl e \<Rightarrow> Inl e
           | Inr rows \<Rightarrow>
               Inr (((i, full_name t, duration_str),
                     [\<lparr>caption = TrackCaption i (take 40 (full_name t)),
                       callback_data = ''dl_'' @ py_str (i - 1)\<rparr>]) # rows)))"

definition nav_buttons :: "int \<Rightarrow> int \<Rightarrow> int \<Rightarrow> button list" where
  "nav_buttons pg end_idx n =
     (if pg > 0 then [\<lparr>caption = Back, callback_data = ''page_'' @ py_str (pg - 1)\<rparr>] else []) @
     (if end_idx < n then [\<lparr>caption = Forward, callback_data = ''page_'' @ py_str (pg + 1)\<rparr>] else [])"

definition send_results_page :: "user_data \<Rightarrow> bool \<Rightarrow> py_error + action list" where
  "send_results_page ud message_to_edit =
     (let tracks = (case search_results ud of None \<Rightarrow> [] | Some ts \<Rightarrow> ts);
          pg = (case page ud of None \<Rightarrow> 0 | Some p \<Rightarrow> p);
          per_page = RESULTS_PER_PAGE
      in if tracks = [] then Inr []
         else
           let start_idx = pg * per_page;
               end_idx = min (start_idx + per_page) (int (length tracks));
               page_tracks = py_slice tracks start_idx end_idx
           in case render_rows (start_idx + 1) page_tracks of
                Inl e \<Rightarrow> Inl e
              | Inr rows \<Rightarrow>
                  let nav = nav_buttons pg end_idx (int (length tracks));
                      view = \<lparr>shown_page = pg + 1,
                              shown_pages = (int (length tracks) - 1) div per_page + 1,
                              shown_lines = map fst rows,
                              keyboard = map snd rows @ (if nav \<noteq> [] then [nav] else [])\<rparr>
                  in Inr [if message_to_edit then EditText (ResultsPage view)
                          else ReplyText (ResultsPage view)])"

section \<open>The handlers\<close>

text \<open>
  The collaborators of the handlers are parameters: the engine's search, the engine's
  download (which reads the URL and the output template and may change the files under
  \<^verbatim>\<open>/tmp\<close>), the leading bits of the UUID drawn for the job, and the transport's
  delivery of an audio message (\<open>None\<close> when it is delivered, the exception otherwise).
  The other transport calls are taken to succeed.
\<close>

record env =
  ydl_search :: "string \<Rightarrow> info option outcome"
  ydl_download :: "string \<Rightarrow> string \<Rightarrow> string set \<Rightarrow> bool outcome \<times> string set"
  uuid_bits :: nat
  reply_audio :: "audio \<Rightarrow> py_error option"

record world =
  session :: user_data
  files :: "string set"

record result =
  after :: world
  sent :: "action list"
  raised :: "py_error option"

definition search_command :: "env \<Rightarrow> string list \<Rightarrow> world \<Rightarrow> result" where
  "search_command ev args w =
     (if args = [] then \<lparr>after = w, sent = [ReplyText UsageHint], raised = None\<rparr>
      else
        let query = py_join '' '' args;
            tracks = search_youtube (ydl_search ev) query 20
        in if tracks = []
           then \<lparr>after = w, sent = [ReplyText (Searching query), EditText NothingFound],
                 raised = None\<rparr>
           else
             let ud = (session w)\<lparr>search_results := Some tracks, page := Some 0\<rparr>;
                 w' = w\<lparr>session := ud\<rparr>
             in case send_results_page ud True of
                  Inl e \<Rightarrow>
                    \<lparr>after = w', sent = [ReplyText (Searching query), EditText (SearchError e)],
                     raised = None\<rparr>
                | Inr acts \<Rightarrow>
                    \<lparr>after = w', sent = ReplyText (Searching query) # acts, raised = None\<rparr>)"

text \<open>
  \<^verbatim>\<open>download_track_as_mp3\<close> returns the path of the MP3 file (or \<open>None\<close>) and
  leaves the files as the engine left them.
\<close>

definition output_template :: "env \<Rightarrow> track \<Rightarrow> string" where
  "output_template ev track_info =
     ''/tmp/'' @ clean_filename (full_name track_info) @ ''_'' @ hex8 (uuid_bits ev) @ ''.%(ext)s''"

definition downloaded_file :: "env \<Rightarrow> track \<Rightarrow> string" where
  "downloaded_file ev track_info = py_replace ''.%(ext)s'' ''.mp3'' (output_template ev track_info)"

definition download_track_as_mp3 :: "env \<Rightarrow> string option \<Rightarrow> track \<Rightarrow> string set \<Rightarrow> string option \<times> string set" where
  "download_track_as_mp3 ev vid track_info fs =
     (let url = ''https://www.youtube.com/watch?v='' @ fmt vid;
          (r, fs') = ydl_download ev url (output_template ev track_info) fs
      in case r of
           Raised e \<Rightarrow> (None, fs')
         | Returned info_truthy \<Rightarrow>
             if info_truthy \<and> downloaded_file ev track_info \<in> fs'
             then (Some (downloaded_file ev track_info), fs')
             else (None, fs'))"

text \<open>
  The download branch of \<^verbatim>\<open>button_handler\<close> once the track is chosen: the status
  message, then the \<^verbatim>\<open>try\<close> block, whose \<^verbatim>\<open>except\<close> clause turns every
  exception into an edit of the status message.
\<close>

definition deliver :: "env \<Rightarrow> track \<Rightarrow> world \<Rightarrow> result" where
  "deliver ev track w =
     (let url = ''https://www.youtube.com/watch?v='' @ fmt (video_id track);
          (file_path, fs') = download_track_as_mp3 ev (video_id track) track (files w);
          w' = w\<lparr>files := fs'\<rparr>;
          start = [ReplyText (Downloading (full_name track)), Download url]
      in case file_path of
           None \<Rightarrow> \<lparr>after = w', sent = start @ [EditText DownloadFailed], raised = None\<rparr>
         | Some path \<Rightarrow>
             if path \<notin> fs'
             then \<lparr>after = w', sent = start @ [EditText DownloadFailed], raised = None\<rparr>
             else
               (case (title track, artist track) of
                  (Some ttl, Some performer) \<Rightarrow>
                    let a = \<lparr>audio_path = path, audio_title = take 200 ttl,
                             audio_performer = take 200 performer,
                             audio_caption = full_name track,
                             audio_duration = duration track\<rparr>
                    in (case reply_audio ev a of
                          None \<Rightarrow>
                            \<lparr>after = w'\<lparr>files := fs' - {path}\<rparr>,
                             sent = start @ [ReplyAudio a, Remove path, DeleteStatus],
                             raised = None\<rparr>
                        | Some e \<Rightarrow>
                            \<lparr>after = w', sent = start @ [ReplyAudio a, EditText (DownloadError e)],
                             raised = None\<rparr>)
                | _ \<Rightarrow>
                    \<lparr>after = w', sent = start @ [EditText (DownloadError TypeError)],
                     raised = None\<rparr>))"

definition button_handler :: "env \<Rightarrow> string \<Rightarrow> world \<Rightarrow> result" where
  "button_handler ev data w =
     (if startswith data ''page_'' then
        (case py_int (py_split (CHR ''_'') data ! 1) of
           Inl e \<Rightarrow> \<lparr>after = w, sent = [Answer], raised = Some e\<rparr>
         | Inr pg \<Rightarrow>
             let ud = (session w)\<lparr>page := Some pg\<rparr>;
                 w' = w\<lparr>session := ud\<rparr>
             in (case send_results_page ud True of
                   Inl e \<Rightarrow> \<lparr>after = w', sent = [Answer], raised = Some e\<rparr>
                 | Inr acts \<Rightarrow> \<lparr>after = w', sent = Answer # acts, raised = None\<rparr>))
      else if startswith data ''dl_'' then
        (case py_int (py_split (CHR ''_'') data ! 1) of
           Inl e \<Rightarrow> \<lparr>after = w, sent = [Answer], raised = Some e\<rparr>
         | Inr idx \<Rightarrow>
             let tracks = (case search_results (session w) of None \<Rightarrow> [] | Some ts \<Rightarrow> ts)
             in if idx < 0 \<or> idx \<ge> int (length tracks)
                then \<lparr>after = w, sent = [Answer, EditText TrackNotFound], raised = None\<rparr>
                else let r = deliver ev (tracks ! nat idx) w in r\<lparr>sent := Answer # sent r\<rparr>)
      else \<lparr>after = w, sent = [Answer], raised = None\<rparr>)"

section \<open>Notions used to state the properties\<close>

text \<open>The number of pages, as \<^verbatim>\<open>send_results_page\<close> prints it in the page header.\<close>

definition page_count :: "nat \<Rightarrow> int" where
  "page_count n = (int n - 1) div RESULTS_PER_PAGE + 1"

definition has_prev :: "page_view \<Rightarrow> bool" where
  "has_prev v = list_ex (\<lambda>b. caption b = Back) (concat (keyboard v))"

definition has_next :: "page_view \<Rightarrow> bool" where
  "has_next v = list_ex (\<lambda>b. caption b = Forward) (concat (keyboard v))"

text \<open>A track whose duration \<^verbatim>\<open>format_duration\<close> prints without an exception.\<close>

definition renders :: "track \<Rightarrow> bool" where
  "renders t = (\<not> isl (format_duration (duration t)))"

text \<open>The stored page (0 when the key is missing) has at least one item to show.\<close>

definition page_in_results :: "user_data \<Rightarrow> bool" where
  "page_in_results ud =
     (case search_results ud of
        None \<Rightarrow> True
      | Some tracks \<Rightarrow>
          tracks = [] \<or>
          (case page ud of None \<Rightarrow> 0 | Some p \<Rightarrow> p) * RESULTS_PER_PAGE < int (length tracks))"

subsection \<open>A concrete engine, transport and result set\<close>

definition demo_track :: "nat \<Rightarrow> track" where
  "demo_track k =
     \<lparr>video_id = Some (''id'' @ str_nat k), title = Some (''Song '' @ str_nat k), artist = Some ''Band'',
      full_name = ''Band - Song '' @ str_nat k, duration = Some 65\<rparr>"

definition demo_tracks :: "nat \<Rightarrow> track list" where
  "demo_tracks n = map demo_track [0..<n]"

definition demo_entry :: "nat \<Rightarrow> entry option" where
  "demo_entry k =
     Some \<lparr>e_id = Val (''id'' @ str_nat k), e_title = Val (''Song '' @ str_nat k),
           e_channel = Val ''Band'', e_uploader = Absent, e_duration = Val 65,
           e_other_keys = True\<rparr>"

text \<open>
  An engine that finds three entries for any query and writes the MP3 file it is asked
  for, with a transport that delivers every audio message.
\<close>

definition demo_env :: env where
  "demo_env =
     \<lparr>ydl_search = (\<lambda>q. Returned (Some (Some (map demo_entry [0..<3])))),
      ydl_download = (\<lambda>url tmpl fs. (Returned True, insert (py_replace ''.%(ext)s'' ''.mp3'' tmpl) fs)),
      uuid_bits = 439041101,
      reply_audio = (\<lambda>a. None)\<rparr>"

definition demo_world :: "nat \<Rightarrow> int \<Rightarrow> world" where
  "demo_world n p =
     \<lparr>session = \<lparr>search_results = Some (demo_tracks n), page = Some p\<rparr>, files = {}\<rparr>"

definition fresh_world :: world where
  "fresh_world = \<lparr>session = \<lparr>search_results = None, page = None\<rparr>, files = {}\<rparr>"

text \<open>An engine whose search raises, and one that finds nothing.\<close>

definition failing_search :: "string \<Rightarrow> info option outcome" where
  "failing_search q = Raised EngineError"

definition empty_search :: "string \<Rightarrow> info option outcome" where
  "empty_search q = Returned (Some (Some []))"

text \<open>The same engine with a transport that fails to deliver the audio message.\<close>

definition flaky_env :: env where
  "flaky_env = demo_env\<lparr>reply_audio := (\<lambda>a. Some TransportError)\<rparr>"

subsection \<open>Names of directory entries\<close>

text \<open>
  The length of the UTF-8 encoding of a string of the model: a code point below U+0080
  takes one byte, every other code point below U+0100 takes two.
\<close>

definition utf8_length :: "string \<Rightarrow> nat" where
  "utf8_length s = length s + length (filter (\<lambda>c. 128 \<le> (of_char c :: nat)) s)"

text \<open>
  A well-formed name of one directory entry on a POSIX file system: not empty, not
  \<^verbatim>\<open>.\<close> or \<^verbatim>\<open>..\<close>, without \<^verbatim>\<open>/\<close> and without NUL, and at most 255 bytes long.
\<close>

definition well_formed_component :: "string \<Rightarrow> bool" where
  "well_formed_component name =
     (name \<noteq> [] \<and> name \<noteq> ''.'' \<and> name \<noteq> ''..'' \<and> CHR ''/'' \<notin> set name \<and>
      CHR 0x00 \<notin> set name \<and> utf8_length name \<le> 255)"

text \<open>
  A track with a title of 100 and a channel name of 40 accented letters (U+00E9), and
  the file name built for it.
\<close>

definition long_track :: track where
  "long_track =
     \<lparr>video_id = Some ''id0'', title = Some (replicate 100 (CHR 0xE9)),
      artist = Some (replicate 40 (CHR 0xE9)),
      full_name = replicate 40 (CHR 0xE9) @ '' - '' @ replicate 100 (CHR 0xE9),
      duration = Some 65\<rparr>"

definition long_name :: string where
  "long_name = replicate 40 (CHR 0xE9) @ '' - '' @ replicate 100 (CHR 0xE9) @ ''_1a2b3c4d.mp3''"

section \<open>Facts about the built-ins\<close>

subsection \<open>Decimal rendering and parsing\<close>

lemma digit_char_cases:
  "d < 10 \<Longrightarrow> d = 0 \<or> d = 1 \<or> d = 2 \<or> d = 3 \<or> d = 4 \<or> d = 5 \<or> d = 6 \<or> d = 7 \<or> d = 8 \<or> d = (9::nat)"
  by arith

lemma digit_char_in: "d < 10 \<Longrightarrow> digit_char d \<in> set ''0123456789''"
  unfolding digit_char_def by (rule nth_mem) simp

lemma is_digit_digit_char: "d < 10 \<Longrightarrow> is_digit (digit_char d)"
  by (simp only: is_digit_def digit_char_in)

lemma digit_val_digit_char: "d < 10 \<Longrightarrow> digit_val (digit_char d) = d"
  using digit_char_cases [of d] by (auto simp: digit_val_def digit_char_def)

lemma str_nat_chars: "set (str_nat n) \<subseteq> set ''0123456789''"
proof (induction n rule: str_nat.induct)
  case (1 n)
  show ?case
  proof (cases "n < 10")
    case True
    then have "str_nat n = [digit_char n]" by (subst str_nat.simps) simp
    then show ?thesis
      using digit_char_in [OF True] by simp
  next
    case False
    have "n mod 10 < 10" by simp
    then have d: "digit_char (n mod 10) \<in> set ''0123456789''" by (rule digit_char_in)
    have e: "str_nat n = str_nat (n div 10) @ [digit_char (n mod 10)]"
      using False by (subst str_nat.simps) simp
    from 1 [OF False] d show ?thesis
      unfolding e by simp
  qed
qed

lemma str_nat_nonempty: "str_nat n \<noteq> []"
  by (subst str_nat.simps) simp

lemma digits_val_snoc: "digits_val (ds @ [c]) = 10 * digits_val ds + digit_val c"
  by (simp add: digits_val_def)

lemma digits_val_str_nat: "digits_val (str_nat n) = n"
proof (induction n rule: str_nat.induct)
  case (1 n)
  show ?case
  proof (cases "n < 10")
    case True
    then have "str_nat n = [digit_char n]" by (subst str_nat.simps) simp
    then show ?thesis
      using True by (simp add: digits_val_def digit_val_digit_char)
  next
    case False
    have e: "str_nat n = str_nat (n div 10) @ [digit_char (n mod 10)]"
      using False by (subst str_nat.simps) simp
    show ?thesis
      unfolding e digits_val_snoc using 1 [OF False] by (simp add: digit_val_digit_char)
  qed
qed

lemma py_split_none: "sep \<notin> set s \<Longrightarrow> py_split sep s = [s]"
  by (induction s) auto

lemma digits_no_underscore: "CHR ''_'' \<notin> set ''0123456789''"
  by simp

lemma parse_digits_str_nat: "parse_digits (str_nat n) = Inr n"
proof -
  have "\<forall>c\<in>set (str_nat n). is_digit c"
    using str_nat_chars [of n] unfolding is_digit_def by blast
  then have d: "list_all is_digit (str_nat n)"
    by (simp only: list_all_iff)
  have "CHR ''_'' \<notin> set (str_nat n)"
    using str_nat_chars [of n] digits_no_underscore by blast
  then have s: "py_split (CHR ''_'') (str_nat n) = [str_nat n]"
    by (rule py_split_none)
  show ?thesis
    unfolding parse_digits_def s using d
    by (simp add: str_nat_nonempty digits_val_str_nat)
qed

lemma py_str_chars: "set (py_str i) \<subseteq> insert (CHR ''-'') (set ''0123456789'')"
proof (cases "i < 0")
  case True
  then have "py_str i = CHR ''-'' # str_nat (nat (- i))" by (simp add: py_str_def)
  then have "set (py_str i) = insert (CHR ''-'') (set (str_nat (nat (- i))))"
    by (simp only: list.set)
  then show ?thesis using str_nat_chars [of "nat (- i)"] by blast
next
  case False
  then have "set (py_str i) = set (str_nat (nat i))" by (simp add: py_str_def)
  then show ?thesis using str_nat_chars [of "nat i"] by blast
qed

lemma dropWhile_none: "\<forall>c\<in>set s. \<not> P c \<Longrightarrow> dropWhile P s = s"
  by (cases s) auto

lemma py_strip_id: "\<forall>c\<in>set s. \<not> is_space c \<Longrightarrow> py_strip s = s"
  by (simp add: py_strip_def dropWhile_none)

lemma sign_digits_no_space: "\<forall>c\<in>insert (CHR ''-'') (set ''0123456789''). \<not> is_space c"
  by (simp add: is_space_def)

lemma sign_digits_no_underscore: "CHR ''_'' \<notin> insert (CHR ''-'') (set ''0123456789'')"
  by simp

lemma digits_no_sign: "CHR ''-'' \<notin> set ''0123456789'' \<and> CHR ''+'' \<notin> set ''0123456789''"
  by simp

lemma py_str_no_space: "\<forall>c\<in>set (py_str i). \<not> is_space c"
  using py_str_chars [of i] sign_digits_no_space by blast

lemma py_str_no_underscore: "CHR ''_'' \<notin> set (py_str i)"
  using py_str_chars [of i] sign_digits_no_underscore by blast

lemma str_nat_no_sign: "hd (str_nat n) \<noteq> CHR ''-'' \<and> hd (str_nat n) \<noteq> CHR ''+''"
proof -
  have "hd (str_nat n) \<in> set (str_nat n)" by (simp add: str_nat_nonempty)
  then have "hd (str_nat n) \<in> set ''0123456789''" using str_nat_chars by blast
  then show ?thesis using digits_no_sign by metis
qed

lemma py_int_stripped:
  "py_strip s = c # r \<Longrightarrow>
   py_int s =
     (if c = CHR ''-'' then map_sum id (\<lambda>n. - int n) (parse_digits r)
      else if c = CHR ''+'' then map_sum id int (parse_digits r)
      else map_sum id int (parse_digits (c # r)))"
  by (simp add: py_int_def)

lemma py_int_py_str: "py_int (py_str i) = Inr i"
proof -
  have strip: "py_strip (py_str i) = py_str i"
    by (rule py_strip_id) (rule py_str_no_space)
  show ?thesis
  proof (cases "i < 0")
    case True
    then have "py_strip (py_str i) = CHR ''-'' # str_nat (nat (- i))"
      by (simp add: strip) (simp add: py_str_def)
    from py_int_stripped [OF this] show ?thesis
      using True by (simp add: parse_digits_str_nat)
  next
    case False
    obtain c r where cr: "str_nat (nat i) = c # r"
      using str_nat_nonempty [of "nat i"] by (cases "str_nat (nat i)") auto
    then have c: "c \<noteq> CHR ''-''" "c \<noteq> CHR ''+''"
      using str_nat_no_sign [of "nat i"] by auto
    have p: "parse_digits (c # r) = Inr (nat i)"
      using parse_digits_str_nat [of "nat i"] cr by simp
    have "py_strip (py_str i) = c # r"
      using False cr by (simp add: strip) (simp add: py_str_def)
    from py_int_stripped [OF this] show ?thesis
      using False c p by simp
  qed
qed

lemma split_dl: "py_split (CHR ''_'') (''dl_'' @ py_str i) ! 1 = py_str i"
  by (simp add: py_split_none py_str_no_underscore)

lemma split_page: "py_split (CHR ''_'') (''page_'' @ py_str i) ! 1 = py_str i"
  by (simp add: py_split_none py_str_no_underscore)

lemma startswith_dl: "startswith (''dl_'' @ s) ''dl_'' \<and> \<not> startswith (''dl_'' @ s) ''page_''"
  by (simp add: startswith_def)

lemma startswith_page: "startswith (''page_'' @ s) ''page_''"
  by (simp add: startswith_def)

subsection \<open>Replacement and file names\<close>

lemma hex_char_in: "d < 16 \<Longrightarrow> hex_char d \<in> set ''0123456789abcdef''"
  unfolding hex_char_def by (rule nth_mem) simp

lemma hex8_chars: "set (hex8 u) \<subseteq> set ''0123456789abcdef''"
proof
  fix c assume "c \<in> set (hex8 u)"
  then obtain i where "c = hex_char ((u div 16 ^ (7 - i)) mod 16)"
    unfolding hex8_def by auto
  moreover have "(u div 16 ^ (7 - i)) mod 16 < 16" by simp
  ultimately show "c \<in> set ''0123456789abcdef''"
    using hex_char_in by metis
qed

lemma hex_no_slash: "CHR ''/'' \<notin> set ''0123456789abcdef''"
  by simp

lemma hex8_no_slash: "CHR ''/'' \<notin> set (hex8 u)"
  using hex8_chars [of u] hex_no_slash by blast

lemma length_hex8: "length (hex8 u) = 8"
  by (simp add: hex8_def)

lemma py_replace_chars: "set (py_replace old new s) \<subseteq> set s \<union> set new"
proof (induction old new s rule: py_replace.induct)
  case (1 old new)
  show ?case by simp
next
  case (2 old new c cs)
  show ?case
  proof (cases "old \<noteq> [] \<and> take (length old) (c # cs) = old")
    case True
    have "set (drop (length old - 1) cs) \<subseteq> set cs" by (rule set_drop_subset)
    with 2(1) [OF True] True show ?thesis by auto
  next
    case False
    with 2(2) [OF False] show ?thesis by auto
  qed
qed

lemma py_replace_keeps:
  "x \<notin> set old \<Longrightarrow> x \<in> set s \<Longrightarrow> x \<in> set (py_replace old new s)"
proof (induction old new s rule: py_replace.induct)
  case (1 old new)
  then show ?case by simp
next
  case (2 old new c cs)
  show ?case
  proof (cases "old \<noteq> [] \<and> take (length old) (c # cs) = old")
    case True
    then have "c # cs = old @ drop (length old) (c # cs)"
      by (metis append_take_drop_id)
    moreover have "drop (length old) (c # cs) = drop (length old - 1) cs"
      using True by (cases old) auto
    ultimately have "set (c # cs) = set old \<union> set (drop (length old - 1) cs)"
      by (metis set_append)
    with 2(4) 2(3) have "x \<in> set (drop (length old - 1) cs)" by blast
    with 2(1) [OF True 2(3)] True show ?thesis by simp
  next
    case False
    with 2(2) [OF False 2(3)] 2(4) show ?thesis by auto
  qed
qed

lemma py_replace_skip:
  "p \<noteq> [] \<Longrightarrow> old \<noteq> [] \<Longrightarrow> hd old \<notin> set p \<Longrightarrow>
   py_replace old new (p @ s) = p @ py_replace old new s"
proof (induction p)
  case Nil
  then show ?case by simp
next
  case (Cons a p)
  have ne: "take (length old) (a # p @ s) \<noteq> old"
  proof
    assume "take (length old) (a # p @ s) = old"
    then have "hd old = a" using Cons.prems(2) by (cases old) auto
    with Cons.prems(3) show False by simp
  qed
  show ?case
  proof (cases "p = []")
    case True
    with ne show ?thesis by simp
  next
    case False
    with Cons ne show ?thesis by simp
  qed
qed

lemma clean_filename_no_slash: "CHR ''/'' \<notin> set (clean_filename t)"
  by (simp add: clean_filename_def forbidden_chars_def)

lemma template_tail:
  "output_template ev tr = ''/tmp/'' @ (clean_filename (full_name tr) @ ''_'' @ hex8 (uuid_bits ev) @ ''.%(ext)s'')"
  by (simp add: output_template_def)

lemma downloaded_file_tail:
  "downloaded_file ev tr =
     ''/tmp/'' @ py_replace ''.%(ext)s'' ''.mp3''
       (clean_filename (full_name tr) @ ''_'' @ hex8 (uuid_bits ev) @ ''.%(ext)s'')"
  unfolding downloaded_file_def template_tail
  by (rule py_replace_skip) simp_all

lemma component_no_slash:
  "CHR ''/'' \<notin> set (clean_filename t @ ''_'' @ hex8 u @ ''.%(ext)s'')"
  using clean_filename_no_slash [of t] hex8_no_slash [of u] by simp

lemma component_underscore:
  "CHR ''_'' \<in> set (clean_filename t @ ''_'' @ hex8 u @ ''.%(ext)s'')"
  by simp

lemma replaced_no_slash:
  "CHR ''/'' \<notin> set (py_replace ''.%(ext)s'' ''.mp3'' (clean_filename t @ ''_'' @ hex8 u @ ''.%(ext)s''))"
proof -
  have "CHR ''/'' \<notin> set ''.mp3''" by simp
  with component_no_slash [of t u] py_replace_chars show ?thesis by blast
qed

lemma replaced_underscore:
  "CHR ''_'' \<in> set (py_replace ''.%(ext)s'' ''.mp3'' (clean_filename t @ ''_'' @ hex8 u @ ''.%(ext)s''))"
proof (rule py_replace_keeps)
  show "CHR ''_'' \<notin> set ''.%(ext)s''" by simp
  show "CHR ''_'' \<in> set (clean_filename t @ ''_'' @ hex8 u @ ''.%(ext)s'')"
    by (rule component_underscore)
qed

lemma underscore_component: "CHR ''_'' \<in> set name \<Longrightarrow> name \<noteq> [] \<and> name \<noteq> ''.'' \<and> name \<noteq> ''..''"
  by auto

section \<open>Temp file names and duration strings\<close>

lemma hex8_demo: "hex8 439041101 = ''1a2b3c4d''"
  by (simp add: hex8_def hex_char_def upt_rec)

lemma downloaded_file_demo:
  "downloaded_file demo_env (demo_track 3) = ''/tmp/Band - Song 3_1a2b3c4d.mp3''"
  by (simp add: downloaded_file_def output_template_def demo_env_def demo_track_def
      clean_filename_def forbidden_chars_def hex8_demo str_nat.simps digit_char_def)

text \<open>
  C6. Durations under ten minutes are not printed as \<^verbatim>\<open>mm:ss\<close>: stripping the leading
  \<^verbatim>\<open>0\<close> and \<^verbatim>\<open>:\<close> characters leaves five seconds as \<^verbatim>\<open>5\<close> and sixty-five
  seconds as \<^verbatim>\<open>1:05\<close>.
\<close>

theorem format_duration_strips_minutes:
  "format_duration (Some 5) = Inr ''5'' \<and> format_duration (Some 65) = Inr ''1:05''"
  by code_simp

section \<open>Pages\<close>

subsection \<open>Page arithmetic and slices\<close>

lemma page_count_iff: "(p < page_count n) = (p * 10 < int n)"
  unfolding page_count_def RESULTS_PER_PAGE_def by presburger

lemma last_page_iff: "(p < page_count n - 1) = (p * 10 + 10 < int n)"
  unfolding page_count_def RESULTS_PER_PAGE_def by presburger

lemma page_count_pos: "0 < n \<Longrightarrow> 1 \<le> page_count n"
  unfolding page_count_def RESULTS_PER_PAGE_def by presburger

lemma py_slice_nonneg:
  "0 \<le> a \<Longrightarrow> 0 \<le> b \<Longrightarrow>
   py_slice xs a b = take (min (nat b) (length xs) - min (nat a) (length xs)) (drop (min (nat a) (length xs)) xs)"
  by (simp add: py_slice_def slice_bound_def Let_def)

lemma py_slice_beyond:
  "int (length xs) \<le> a \<Longrightarrow> py_slice xs a (min (a + k) (int (length xs))) = []"
  by (simp add: py_slice_def slice_bound_def Let_def)

lemma py_slice_page_length:
  "0 \<le> a \<Longrightarrow> a < int (length xs) \<Longrightarrow>
   length (py_slice xs a (min (a + 10) (int (length xs)))) = min 10 (length xs - nat a)"
  by (simp add: py_slice_def slice_bound_def Let_def) linarith

lemma py_slice_page_nth:
  "0 \<le> a \<Longrightarrow> nat a + k < length xs \<Longrightarrow> k < 10 \<Longrightarrow>
   py_slice xs a (min (a + 10) (int (length xs))) ! k = xs ! (nat a + k)"
  by (simp add: py_slice_def slice_bound_def Let_def min_def)

subsection \<open>The rows of a page\<close>

lemma render_rows_length: "render_rows i ts = Inr rows \<Longrightarrow> length rows = length ts"
  by (induction ts arbitrary: i rows) (auto split: sum.splits)

lemma render_rows_nth:
  "render_rows i ts = Inr rows \<Longrightarrow> k < length ts \<Longrightarrow>
   snd (rows ! k) =
     [\<lparr>caption = TrackCaption (i + int k) (take 40 (full_name (ts ! k))),
       callback_data = ''dl_'' @ py_str (i + int k - 1)\<rparr>]"
proof (induction ts arbitrary: i rows k)
  case Nil
  then show ?case by simp
next
  case (Cons t ts)
  from Cons.prems(1) obtain d rest where
    rest: "render_rows (i + 1) ts = Inr rest"
    and rows: "rows = ((i, full_name t, d),
        [\<lparr>caption = TrackCaption i (take 40 (full_name t)),
          callback_data = ''dl_'' @ py_str (i - 1)\<rparr>]) # rest"
    by (auto split: sum.splits)
  show ?case
  proof (cases k)
    case 0
    then show ?thesis by (simp add: rows)
  next
    case (Suc j)
    with Cons.prems(2) have "j < length ts" by simp
    from Cons.IH [OF rest this] show ?thesis
      by (simp add: rows Suc add.commute add.left_commute)
  qed
qed

lemma render_rows_captions:
  "render_rows i ts = Inr rows \<Longrightarrow>
   \<forall>b\<in>set (concat (map snd rows)). \<exists>j s. caption b = TrackCaption j s"
proof (induction ts arbitrary: i rows)
  case Nil
  then show ?case by simp
next
  case (Cons t ts)
  from Cons.prems obtain d rest where
    rest: "render_rows (i + 1) ts = Inr rest"
    and rows: "rows = ((i, full_name t, d),
        [\<lparr>caption = TrackCaption i (take 40 (full_name t)),
          callback_data = ''dl_'' @ py_str (i - 1)\<rparr>]) # rest"
    by (auto split: sum.splits)
  from Cons.IH [OF rest] show ?case
    by (simp add: rows)
qed

lemma render_rows_no_nav:
  "render_rows i ts = Inr rows \<Longrightarrow>
   \<not> list_ex (\<lambda>b. caption b = Back) (concat (map snd rows)) \<and>
   \<not> list_ex (\<lambda>b. caption b = Forward) (concat (map snd rows))"
  using render_rows_captions [of i ts rows] unfolding list_ex_iff by fastforce

lemma render_rows_total:
  "\<forall>t\<in>set ts. renders t \<Longrightarrow> \<exists>rows. render_rows i ts = Inr rows"
proof (induction ts arbitrary: i)
  case Nil
  then show ?case by simp
next
  case (Cons t ts)
  then obtain rest where "render_rows (i + 1) ts = Inr rest" by fastforce
  moreover from Cons.prems obtain d where "format_duration (duration t) = Inr d"
    by (cases "format_duration (duration t)") (auto simp: renders_def)
  ultimately show ?case by simp
qed

lemma py_slice_subset: "set (py_slice xs a b) \<subseteq> set xs"
  unfolding py_slice_def Let_def
  by (meson set_take_subset set_drop_subset subset_trans)

subsection \<open>The page that is sent\<close>

lemma send_results_page_unfold:
  "search_results ud = Some tracks \<Longrightarrow> tracks \<noteq> [] \<Longrightarrow> page ud = Some p \<Longrightarrow>
   send_results_page ud m =
     (case render_rows (p * 10 + 1)
             (py_slice tracks (p * 10) (min (p * 10 + 10) (int (length tracks)))) of
        Inl e \<Rightarrow> Inl e
      | Inr rows \<Rightarrow>
          Inr [if m then EditText (ResultsPage
                 \<lparr>shown_page = p + 1, shown_pages = page_count (length tracks),
                  shown_lines = map fst rows,
                  keyboard = map snd rows @
                    (if nav_buttons p (min (p * 10 + 10) (int (length tracks))) (int (length tracks)) \<noteq> []
                     then [nav_buttons p (min (p * 10 + 10) (int (length tracks))) (int (length tracks))]
                     else [])\<rparr>)
               else ReplyText (ResultsPage
                 \<lparr>shown_page = p + 1, shown_pages = page_count (length tracks),
                  shown_lines = map fst rows,
                  keyboard = map snd rows @
                    (if nav_buttons p (min (p * 10 + 10) (int (length tracks))) (int (length tracks)) \<noteq> []
                     then [nav_buttons p (min (p * 10 + 10) (int (length tracks))) (int (length tracks))]
                     else [])\<rparr>)])"
  by (simp add: send_results_page_def Let_def RESULTS_PER_PAGE_def page_count_def
      split: sum.splits)

lemma send_results_page_empty:
  "(case search_results ud of None \<Rightarrow> [] | Some ts \<Rightarrow> ts) = [] \<Longrightarrow> send_results_page ud m = Inr []"
  by (simp add: send_results_page_def Let_def)

lemma nav_buttons_prev:
  "list_ex (\<lambda>b. caption b = Back) (nav_buttons p e n) = (0 < p)"
  by (simp add: nav_buttons_def)

lemma nav_buttons_next:
  "list_ex (\<lambda>b. caption b = Forward) (nav_buttons p e n) = (e < n)"
  by (simp add: nav_buttons_def)

lemma list_ex_keyboard:
  "list_ex P (concat (rows @ (if nav \<noteq> [] then [nav] else []))) =
   (list_ex P (concat rows) \<or> list_ex P nav)"
  by (auto simp: list_ex_iff)

lemma end_idx_less: "(min (p * 10 + 10) n < n) = (p * 10 + 10 < (n::int))"
  by auto

subsection \<open>The concrete result set\<close>

lemma length_demo_tracks: "length (demo_tracks n) = n"
  by (simp add: demo_tracks_def)

lemma demo_tracks_nth: "k < n \<Longrightarrow> demo_tracks n ! k = demo_track k"
  by (simp add: demo_tracks_def)

lemma demo_tracks_nonempty: "0 < n \<Longrightarrow> demo_tracks n \<noteq> []"
  using length_demo_tracks [of n] by auto

lemma renders_demo_track: "renders (demo_track k)"
  by (simp add: renders_def demo_track_def format_duration_def timedelta_str_def Let_def)

lemma renders_demo_tracks: "\<forall>t\<in>set (demo_tracks n). renders t"
  by (simp add: demo_tracks_def renders_demo_track)

text \<open>
  C8. For a non-empty result set and a valid page index, the page that is sent has a
  "previous" button exactly when the index is positive and a "next" button exactly when
  the index is below the last page; it shows at least one item and the page count of the
  result set. A page is sent whenever the durations of the tracks can be printed.
\<close>

theorem page_flags:
  assumes "search_results ud = Some tracks" and "tracks \<noteq> []" and "page ud = Some p"
    and "0 \<le> p" and "p < page_count (length tracks)"
  shows "(\<forall>acts. send_results_page ud m = Inr acts \<longrightarrow>
            (\<exists>v. acts = [if m then EditText (ResultsPage v) else ReplyText (ResultsPage v)] \<and>
                 has_prev v = (0 < p) \<and>
                 has_next v = (p < page_count (length tracks) - 1) \<and>
                 shown_lines v \<noteq> [] \<and> shown_pages v = page_count (length tracks))) \<and>
         ((\<forall>t\<in>set tracks. renders t) \<longrightarrow> (\<exists>acts. send_results_page ud m = Inr acts))"
proof (intro conjI allI impI)
  let ?n = "int (length tracks)"
  let ?e = "min (p * 10 + 10) ?n"
  let ?slice = "py_slice tracks (p * 10) ?e"
  note unfold = send_results_page_unfold [OF assms(1,2,3), of m]
  {
    fix acts
    assume a: "send_results_page ud m = Inr acts"
    from a obtain rows where rows: "render_rows (p * 10 + 1) ?slice = Inr rows"
      unfolding unfold by (cases "render_rows (p * 10 + 1) ?slice") auto
    define v where "v =
      \<lparr>shown_page = p + 1, shown_pages = page_count (length tracks),
       shown_lines = map fst rows,
       keyboard = map snd rows @
         (if nav_buttons p ?e ?n \<noteq> [] then [nav_buttons p ?e ?n] else [])\<rparr>"
    have acts: "acts = [if m then EditText (ResultsPage v) else ReplyText (ResultsPage v)]"
      using a unfolding unfold rows v_def by simp
    have nonav: "\<not> list_ex (\<lambda>b. caption b = Back) (concat (map snd rows))"
      "\<not> list_ex (\<lambda>b. caption b = Forward) (concat (map snd rows))"
      using render_rows_no_nav [OF rows] by simp_all
    have prev: "has_prev v = (0 < p)"
      unfolding has_prev_def v_def
      by (simp only: page_view.simps list_ex_keyboard nav_buttons_prev nonav simp_thms)
    have "has_next v = (?e < ?n)"
      unfolding has_next_def v_def
      by (simp only: page_view.simps list_ex_keyboard nav_buttons_next nonav simp_thms)
    then have nxt: "has_next v = (p < page_count (length tracks) - 1)"
      by (simp only: end_idx_less last_page_iff)
    have lt: "p * 10 < ?n" using assms(5) by (simp only: page_count_iff)
    have "0 \<le> p * 10" using assms(4) by simp
    from py_slice_page_length [OF this lt] have "length ?slice = min 10 (length tracks - nat (p * 10))" .
    moreover have "0 < length tracks - nat (p * 10)" using lt assms(4) by linarith
    ultimately have "0 < length ?slice" by simp
    then have "0 < length rows" using render_rows_length [OF rows] by simp
    then have lines: "shown_lines v \<noteq> []" by (simp add: v_def)
    have pages: "shown_pages v = page_count (length tracks)" by (simp add: v_def)
    from acts prev nxt lines pages
    show "\<exists>v. acts = [if m then EditText (ResultsPage v) else ReplyText (ResultsPage v)] \<and>
                 has_prev v = (0 < p) \<and>
                 has_next v = (p < page_count (length tracks) - 1) \<and>
                 shown_lines v \<noteq> [] \<and> shown_pages v = page_count (length tracks)"
      by blast
  }
  {
    assume r: "\<forall>t\<in>set tracks. renders t"
    have "\<forall>t\<in>set ?slice. renders t"
      using r py_slice_subset [of tracks "p * 10" ?e] by blast
    from render_rows_total [OF this] obtain rows where
      "render_rows (p * 10 + 1) ?slice = Inr rows" by blast
    then show "\<exists>acts. send_results_page ud m = Inr acts"
      unfolding unfold by simp
  }
qed

theorem page_flags_witness:
  "\<exists>v. send_results_page \<lparr>search_results = Some (demo_tracks 25), page = Some 1\<rparr> True =
          Inr [EditText (ResultsPage v)] \<and> has_prev v \<and> has_next v"
proof -
  let ?ud = "\<lparr>search_results = Some (demo_tracks 25), page = Some 1\<rparr>"
  have h: "search_results ?ud = Some (demo_tracks 25)" "demo_tracks 25 \<noteq> []"
    "page ?ud = Some 1" "(0::int) \<le> 1" "1 < page_count (length (demo_tracks 25))"
    by (simp_all add: demo_tracks_nonempty length_demo_tracks page_count_def RESULTS_PER_PAGE_def)
  note t = page_flags [OF h, of True]
  from t renders_demo_tracks obtain acts where a: "send_results_page ?ud True = Inr acts"
    by blast
  with t obtain v where "acts = [EditText (ResultsPage v)]" "has_prev v = ((0::int) < 1)"
    "has_next v = (1 < page_count (length (demo_tracks 25)) - 1)"
    by auto
  then show ?thesis
    using a by (auto simp: length_demo_tracks page_count_def RESULTS_PER_PAGE_def)
qed

section \<open>The name of the temp file\<close>

lemma hex_not_forbidden: "set ''0123456789abcdef'' \<inter> forbidden_chars = {}"
  by (simp add: forbidden_chars_def)

lemma tail_not_forbidden: "set ''.%(ext)s'' \<inter> forbidden_chars = {} \<and> set ''.mp3'' \<inter> forbidden_chars = {} \<and> CHR ''_'' \<notin> forbidden_chars"
  by (simp add: forbidden_chars_def)

lemma hex8_not_forbidden: "set (hex8 u) \<inter> forbidden_chars = {}"
  using hex8_chars [of u] hex_not_forbidden by blast

lemma clean_filename_not_forbidden: "set (clean_filename t) \<inter> forbidden_chars = {}"
  by (auto simp: clean_filename_def)

lemma template_not_forbidden:
  "set (clean_filename t @ ''_'' @ hex8 u @ ''.%(ext)s'') \<inter> forbidden_chars = {}"
proof -
  have "set (clean_filename t @ ''_'' @ hex8 u @ ''.%(ext)s'') =
      set (clean_filename t) \<union> ({CHR ''_''} \<union> (set (hex8 u) \<union> set ''.%(ext)s''))"
    by (simp only: set_append list.set Un_insert_left Un_empty_left)
  then show ?thesis
    using clean_filename_not_forbidden [of t] hex8_not_forbidden [of u] tail_not_forbidden
    by blast
qed

lemma component_not_forbidden:
  "set (py_replace ''.%(ext)s'' ''.mp3'' (clean_filename t @ ''_'' @ hex8 u @ ''.%(ext)s'')) \<inter>
     forbidden_chars = {}"
  using template_not_forbidden [of t u] tail_not_forbidden
    py_replace_chars [of "''.%(ext)s''" "''.mp3''" "clean_filename t @ ''_'' @ hex8 u @ ''.%(ext)s''"]
  by blast

text \<open>
  C10 (as it holds). \<^verbatim>\<open>clean_filename\<close> returns a string with none of the nine
  characters \<^verbatim>\<open>\ / * ? : " < > |\<close> and keeps every other character in its original
  order. Hence the output template and the MP3 path built from a track's display name
  and the random suffix are \<^verbatim>\<open>/tmp/\<close> followed by a single name: it is not empty,
  not \<^verbatim>\<open>.\<close> or \<^verbatim>\<open>..\<close>, and has no \<^verbatim>\<open>/\<close> nor any other of the nine
  characters. Nothing bounds the length of the name or removes other characters.
\<close>

theorem clean_filename_component:
  "set (clean_filename t) \<inter> 
     {CHR 0x5C, CHR ''/'', CHR ''*'', CHR ''?'', CHR '':'', CHR 0x22, CHR ''<'', CHR ''>'', CHR ''|''} = {} \<and>
   filter (\<lambda>c. c \<notin> 
     {CHR 0x5C, CHR ''/'', CHR ''*'', CHR ''?'', CHR '':'', CHR 0x22, CHR ''<'', CHR ''>'', CHR ''|''}) (clean_filename t) = filter (\<lambda>c. c \<notin> 
     {CHR 0x5C, CHR ''/'', CHR ''*'', CHR ''?'', CHR '':'', CHR 0x22, CHR ''<'', CHR ''>'', CHR ''|''}) t \<and>
   (\<exists>name. output_template ev tr = ''/tmp/'' @ name \<and> name \<noteq> [] \<and> name \<noteq> ''.'' \<and>
        name \<noteq> ''..'' \<and> CHR ''/'' \<notin> set name \<and> set name \<inter> 
     {CHR 0x5C, CHR ''/'', CHR ''*'', CHR ''?'', CHR '':'', CHR 0x22, CHR ''<'', CHR ''>'', CHR ''|''} = {}) \<and>
   (\<exists>name. downloaded_file ev tr = ''/tmp/'' @ name \<and> name \<noteq> [] \<and> name \<noteq> ''.'' \<and>
        name \<noteq> ''..'' \<and> CHR ''/'' \<notin> set name \<and> set name \<inter> 
     {CHR 0x5C, CHR ''/'', CHR ''*'', CHR ''?'', CHR '':'', CHR 0x22, CHR ''<'', CHR ''>'', CHR ''|''} = {})"
proof (intro conjI)
  show "set (clean_filename t) \<inter> 
     {CHR 0x5C, CHR ''/'', CHR ''*'', CHR ''?'', CHR '':'', CHR 0x22, CHR ''<'', CHR ''>'', CHR ''|''} = {}"
    by (rule clean_filename_not_forbidden [unfolded forbidden_chars_def])
  show "filter (\<lambda>c. c \<notin> 
     {CHR 0x5C, CHR ''/'', CHR ''*'', CHR ''?'', CHR '':'', CHR 0x22, CHR ''<'', CHR ''>'', CHR ''|''}) (clean_filename t) = filter (\<lambda>c. c \<notin> 
     {CHR 0x5C, CHR ''/'', CHR ''*'', CHR ''?'', CHR '':'', CHR 0x22, CHR ''<'', CHR ''>'', CHR ''|''}) t"
    unfolding clean_filename_def forbidden_chars_def by (simp only: filter_filter conj_absorb)
  show "\<exists>name. output_template ev tr = ''/tmp/'' @ name \<and> name \<noteq> [] \<and> name \<noteq> ''.'' \<and>
        name \<noteq> ''..'' \<and> CHR ''/'' \<notin> set name \<and> set name \<inter> 
     {CHR 0x5C, CHR ''/'', CHR ''*'', CHR ''?'', CHR '':'', CHR 0x22, CHR ''<'', CHR ''>'', CHR ''|''} = {}"
    using template_tail [of ev tr] component_no_slash [of "full_name tr" "uuid_bits ev"]
      underscore_component [OF component_underscore [of "full_name tr" "uuid_bits ev"]]
      template_not_forbidden [of "full_name tr" "uuid_bits ev", unfolded forbidden_chars_def]
    by blast
  show "\<exists>name. downloaded_file ev tr = ''/tmp/'' @ name \<and> name \<noteq> [] \<and> name \<noteq> ''.'' \<and>
        name \<noteq> ''..'' \<and> CHR ''/'' \<notin> set name \<and> set name \<inter> 
     {CHR 0x5C, CHR ''/'', CHR ''*'', CHR ''?'', CHR '':'', CHR 0x22, CHR ''<'', CHR ''>'', CHR ''|''} = {}"
    using downloaded_file_tail [of ev tr] replaced_no_slash [of "full_name tr" "uuid_bits ev"]
      underscore_component [OF replaced_underscore [of "full_name tr" "uuid_bits ev"]]
      component_not_forbidden [of "full_name tr" "uuid_bits ev", unfolded forbidden_chars_def]
    by blast
qed

theorem clean_filename_component_witness:
  "clean_filename ''AC/DC: Back?'' = ''ACDC Back'' \<and>
   clean_filename (''a'' @ [CHR 0x5C] @ ''b*c'' @ [CHR 0x22] @ ''d<e>f|g'') = ''abcdefg'' \<and>
   downloaded_file demo_env (demo_track 3) = ''/tmp/Band - Song 3_1a2b3c4d.mp3'' \<and>
   set ''ACDC Back'' \<inter> 
     {CHR 0x5C, CHR ''/'', CHR ''*'', CHR ''?'', CHR '':'', CHR 0x22, CHR ''<'', CHR ''>'', CHR ''|''} = {} \<and>
   (\<exists>name. ''/tmp/Band - Song 3_1a2b3c4d.mp3'' = ''/tmp/'' @ name \<and> name \<noteq> [] \<and> name \<noteq> ''.'' \<and>
        name \<noteq> ''..'' \<and> CHR ''/'' \<notin> set name \<and> set name \<inter> 
     {CHR 0x5C, CHR ''/'', CHR ''*'', CHR ''?'', CHR '':'', CHR 0x22, CHR ''<'', CHR ''>'', CHR ''|''} = {})"
proof -
  have a: "clean_filename ''AC/DC: Back?'' = ''ACDC Back''"
    by (simp add: clean_filename_def forbidden_chars_def)
  have b: "clean_filename (''a'' @ [CHR 0x5C] @ ''b*c'' @ [CHR 0x22] @ ''d<e>f|g'') = ''abcdefg''"
    by (simp add: clean_filename_def forbidden_chars_def)
  from clean_filename_component [of "''AC/DC: Back?''" demo_env "demo_track 3"]
  show ?thesis
    unfolding a downloaded_file_demo using b downloaded_file_demo by blast
qed

lemma utf8_length_append: "utf8_length (a @ b) = utf8_length a + utf8_length b"
  by (simp add: utf8_length_def)

lemma utf8_length_replicate:
  "utf8_length (replicate n c) = (if 128 \<le> (of_char c :: nat) then 2 * n else n)"
  by (simp add: utf8_length_def)

lemma clean_filename_append: "clean_filename (a @ b) = clean_filename a @ clean_filename b"
  by (simp add: clean_filename_def)

lemma clean_filename_replicate:
  "c \<notin> forbidden_chars \<Longrightarrow> clean_filename (replicate n c) = replicate n c"
  by (simp add: clean_filename_def)

lemma long_name_clean: "clean_filename (full_name long_track) = full_name long_track"
proof -
  have e: "CHR 0xE9 \<notin> forbidden_chars" by (simp add: forbidden_chars_def)
  have d: "clean_filename '' - '' = '' - ''" by (simp add: clean_filename_def forbidden_chars_def)
  show ?thesis
    by (simp only: long_track_def track.simps clean_filename_append
        clean_filename_replicate [OF e] d)
qed

lemma long_name_path: "downloaded_file demo_env long_track = ''/tmp/'' @ long_name"
proof -
  have u: "uuid_bits demo_env = 439041101" by (simp add: demo_env_def)
  have dot: "CHR ''.'' \<notin> set (full_name long_track @ ''_1a2b3c4d'')"
    by (simp add: long_track_def)
  have "py_replace ''.%(ext)s'' ''.mp3'' ((full_name long_track @ ''_1a2b3c4d'') @ ''.%(ext)s'') =
        (full_name long_track @ ''_1a2b3c4d'') @ py_replace ''.%(ext)s'' ''.mp3'' ''.%(ext)s''"
    using dot by (intro py_replace_skip) simp_all
  also have "py_replace ''.%(ext)s'' ''.mp3'' ''.%(ext)s'' = ''.mp3''" by simp
  finally have r: "py_replace ''.%(ext)s'' ''.mp3'' (full_name long_track @ ''_'' @ ''1a2b3c4d'' @ ''.%(ext)s'') =
        full_name long_track @ ''_1a2b3c4d.mp3''"
    by simp
  show ?thesis
    unfolding downloaded_file_tail long_name_clean u hex8_demo r
    by (simp add: long_track_def long_name_def)
qed

lemma long_name_length: "utf8_length long_name = 296"
  by (simp add: long_name_def utf8_length_append utf8_length_replicate) (simp add: utf8_length_def)

text \<open>
  C10 (as stated) fails: for a track whose title has 100 and whose channel name has 40
  accented letters, the name of the MP3 file under \<^verbatim>\<open>/tmp\<close> takes 296 bytes, more
  than a directory entry can hold, so the path is not a well-formed path component.
\<close>

theorem long_name_not_well_formed:
  "downloaded_file demo_env long_track = ''/tmp/'' @ long_name \<and>
   utf8_length long_name = 296 \<and> \<not> well_formed_component long_name"
  using long_name_path long_name_length by (simp add: well_formed_component_def)

section \<open>Callback handling\<close>

lemma py_str_small: "py_str 0 = ''0'' \<and> py_str 1 = ''1'' \<and> py_str 13 = ''13''"
  by (simp add: py_str_def str_nat.simps digit_char_def)

lemma button_handler_page:
  assumes d: "data = ''page_'' @ py_str N"
  shows "button_handler ev data w =
    (case send_results_page ((session w)\<lparr>page := Some N\<rparr>) True of
       Inl e \<Rightarrow> \<lparr>after = w\<lparr>session := (session w)\<lparr>page := Some N\<rparr>\<rparr>, sent = [Answer], raised = Some e\<rparr>
     | Inr acts \<Rightarrow>
         \<lparr>after = w\<lparr>session := (session w)\<lparr>page := Some N\<rparr>\<rparr>, sent = Answer # acts, raised = None\<rparr>)"
proof -
  have 1: "startswith data ''page_''" unfolding d by (rule startswith_page)
  have 2: "py_int (py_split (CHR ''_'') data ! 1) = Inr N"
    unfolding d split_page by (rule py_int_py_str)
  show ?thesis
    unfolding button_handler_def 2 by (simp add: 1 Let_def)
qed

lemma button_handler_dl:
  assumes d: "data = ''dl_'' @ py_str R"
  shows "button_handler ev data w =
    (if R < 0 \<or> int (length (case search_results (session w) of None \<Rightarrow> [] | Some ts \<Rightarrow> ts)) \<le> R
     then \<lparr>after = w, sent = [Answer, EditText TrackNotFound], raised = None\<rparr>
     else (deliver ev ((case search_results (session w) of None \<Rightarrow> [] | Some ts \<Rightarrow> ts) ! nat R) w)
            \<lparr>sent := Answer # sent (deliver ev ((case search_results (session w) of None \<Rightarrow> [] | Some ts \<Rightarrow> ts) ! nat R) w)\<rparr>)"
proof -
  have 1: "startswith data ''dl_''" "\<not> startswith data ''page_''"
    unfolding d using startswith_dl by simp_all
  have 2: "py_int (py_split (CHR ''_'') data ! 1) = Inr R"
    unfolding d split_dl by (rule py_int_py_str)
  show ?thesis
    unfolding button_handler_def 2 by (simp add: 1 Let_def)
qed

lemma session_after_page:
  "session (after (button_handler ev (''page_'' @ py_str N) w)) = (session w)\<lparr>page := Some N\<rparr>"
  unfolding button_handler_page [OF refl]
  by (cases "send_results_page ((session w)\<lparr>page := Some N\<rparr>) True") simp_all

lemma page_in_results_update:
  "search_results ud = Some tracks \<Longrightarrow> tracks \<noteq> [] \<Longrightarrow>
   page_in_results (ud\<lparr>page := Some N\<rparr>) = (N < page_count (length tracks))"
  by (simp add: page_in_results_def page_count_iff RESULTS_PER_PAGE_def)

lemma send_results_page_beyond:
  assumes "search_results ud = Some tracks" and "tracks \<noteq> []" and "page ud = Some N"
    and "page_count (length tracks) \<le> N"
  shows "send_results_page ud True =
    Inr [EditText (ResultsPage
      \<lparr>shown_page = N + 1, shown_pages = page_count (length tracks), shown_lines = [],
       keyboard = [[\<lparr>caption = Back, callback_data = ''page_'' @ py_str (N - 1)\<rparr>]]\<rparr>)]"
proof -
  have ge: "int (length tracks) \<le> N * 10"
    using assms(4) page_count_iff [of N "length tracks"] by linarith
  have pos: "0 < N"
    using assms(2,4) page_count_pos [of "length tracks"] by simp
  have slice: "py_slice tracks (N * 10) (min (N * 10 + 10) (int (length tracks))) = []"
    by (rule py_slice_beyond [OF ge])
  have e: "min (N * 10 + 10) (int (length tracks)) = int (length tracks)"
    using ge by simp
  have nav: "nav_buttons N (int (length tracks)) (int (length tracks)) =
      [\<lparr>caption = Back, callback_data = ''page_'' @ py_str (N - 1)\<rparr>]"
    using pos unfolding nav_buttons_def by simp
  show ?thesis
    unfolding send_results_page_unfold [OF assms(1,2,3)] slice
    unfolding e nav by simp
qed

lemma page_1: "''page_1'' = ''page_'' @ py_str 1"
  using py_str_small by simp

lemma page_count_demo_5: "page_count (length (demo_tracks 5)) = 1"
  by (simp add: length_demo_tracks page_count_def RESULTS_PER_PAGE_def)

lemma demo_world_session:
  "search_results (session (demo_world n p)) = Some (demo_tracks n) \<and>
   page (session (demo_world n p)) = Some p \<and> files (demo_world n p) = {}"
  by (simp add: demo_world_def)

lemma button_handler_beyond:
  assumes "search_results (session w) = Some tracks" and "tracks \<noteq> []"
    and "page_count (length tracks) \<le> N"
  shows "button_handler ev (''page_'' @ py_str N) w =
     \<lparr>after = w\<lparr>session := (session w)\<lparr>page := Some N\<rparr>\<rparr>,
      sent = [Answer, EditText (ResultsPage
        \<lparr>shown_page = N + 1, shown_pages = page_count (length tracks), shown_lines = [],
         keyboard = [[\<lparr>caption = Back, callback_data = ''page_'' @ py_str (N - 1)\<rparr>]]\<rparr>)],
      raised = None\<rparr>"
proof -
  have "send_results_page ((session w)\<lparr>page := Some N\<rparr>) True =
    Inr [EditText (ResultsPage
      \<lparr>shown_page = N + 1, shown_pages = page_count (length tracks), shown_lines = [],
       keyboard = [[\<lparr>caption = Back, callback_data = ''page_'' @ py_str (N - 1)\<rparr>]]\<rparr>)]"
    by (rule send_results_page_beyond) (simp_all add: assms)
  then show ?thesis
    unfolding button_handler_page [OF refl] by simp
qed

text \<open>
  C2 (as stated) fails: with five results there is one page, yet a request for page 1 is
  not rejected; page 1 becomes the stored page and a page without items is shown.
\<close>

theorem page_request_not_rejected:
  "search_results (session (demo_world 5 0)) = Some (demo_tracks 5) \<and>
   page_count (length (demo_tracks 5)) = 1 \<and>
   page (session (after (button_handler demo_env ''page_1'' (demo_world 5 0)))) = Some 1 \<and>
   raised (button_handler demo_env ''page_1'' (demo_world 5 0)) = None \<and>
   sent (button_handler demo_env ''page_1'' (demo_world 5 0)) =
     [Answer, EditText (ResultsPage
        \<lparr>shown_page = 2, shown_pages = 1, shown_lines = [],
         keyboard = [[\<lparr>caption = Back, callback_data = ''page_0''\<rparr>]]\<rparr>)]"
proof -
  have s: "search_results (session (demo_world 5 0)) = Some (demo_tracks 5)"
    by (simp add: demo_world_session)
  have ne: "demo_tracks 5 \<noteq> []" by (rule demo_tracks_nonempty) simp
  have le: "page_count (length (demo_tracks 5)) \<le> 1" by (simp add: page_count_demo_5)
  show ?thesis
    unfolding page_1 button_handler_beyond [OF s ne le]
    using py_str_small by (simp add: page_count_demo_5 demo_world_session)
qed

text \<open>
  C2 (as it holds). No page-navigation request is rejected and there is no out-of-range
  error: whatever the target \<open>N\<close>, it becomes the stored page as it is (not clamped) and
  the result set is kept. When \<open>N\<close> is at or beyond the number of pages of a non-empty
  result set, the handler shows page \<open>N + 1\<close> without items and with only the back button.
\<close>

theorem page_request_accepted:
  "page (session (after (button_handler ev (''page_'' @ py_str N) w))) = Some N \<and>
   search_results (session (after (button_handler ev (''page_'' @ py_str N) w))) =
     search_results (session w) \<and>
   files (after (button_handler ev (''page_'' @ py_str N) w)) = files w \<and>
   (search_results (session w) = Some tracks \<and> tracks \<noteq> [] \<and> page_count (length tracks) \<le> N \<longrightarrow>
      button_handler ev (''page_'' @ py_str N) w =
        \<lparr>after = w\<lparr>session := (session w)\<lparr>page := Some N\<rparr>\<rparr>,
         sent = [Answer, EditText (ResultsPage
           \<lparr>shown_page = N + 1, shown_pages = page_count (length tracks), shown_lines = [],
            keyboard = [[\<lparr>caption = Back, callback_data = ''page_'' @ py_str (N - 1)\<rparr>]]\<rparr>)],
         raised = None\<rparr>)"
proof (intro conjI impI)
  show "page (session (after (button_handler ev (''page_'' @ py_str N) w))) = Some N"
    unfolding session_after_page by simp
  show "search_results (session (after (button_handler ev (''page_'' @ py_str N) w))) =
     search_results (session w)"
    unfolding session_after_page by simp
  show "files (after (button_handler ev (''page_'' @ py_str N) w)) = files w"
    unfolding button_handler_page [OF refl]
    by (cases "send_results_page ((session w)\<lparr>page := Some N\<rparr>) True") simp_all
next
  assume "search_results (session w) = Some tracks \<and> tracks \<noteq> [] \<and> page_count (length tracks) \<le> N"
  then show "button_handler ev (''page_'' @ py_str N) w =
        \<lparr>after = w\<lparr>session := (session w)\<lparr>page := Some N\<rparr>\<rparr>,
         sent = [Answer, EditText (ResultsPage
           \<lparr>shown_page = N + 1, shown_pages = page_count (length tracks), shown_lines = [],
            keyboard = [[\<lparr>caption = Back, callback_data = ''page_'' @ py_str (N - 1)\<rparr>]]\<rparr>)],
         raised = None\<rparr>"
    using button_handler_beyond by blast
qed

theorem page_request_accepted_witness:
  "search_results (session (demo_world 25 0)) = Some (demo_tracks 25) \<and> demo_tracks 25 \<noteq> [] \<and>
   page_count (length (demo_tracks 25)) \<le> 13 \<and>
   page (session (after (button_handler demo_env ''page_13'' (demo_world 25 0)))) = Some 13 \<and>
   sent (button_handler demo_env ''page_13'' (demo_world 25 0)) =
     [Answer, EditText (ResultsPage
        \<lparr>shown_page = 14, shown_pages = 3, shown_lines = [],
         keyboard = [[\<lparr>caption = Back, callback_data = ''page_12''\<rparr>]]\<rparr>)]"
proof -
  have s: "search_results (session (demo_world 25 0)) = Some (demo_tracks 25)"
    by (simp add: demo_world_session)
  have ne: "demo_tracks 25 \<noteq> []" by (rule demo_tracks_nonempty) simp
  have pc: "page_count (length (demo_tracks 25)) = 3"
    by (simp add: length_demo_tracks page_count_def RESULTS_PER_PAGE_def)
  have p13: "''page_13'' = ''page_'' @ py_str 13" using py_str_small by simp
  have p12: "py_str 12 = ''12''" by (simp add: py_str_def str_nat.simps digit_char_def)
  from page_request_accepted [of demo_env 13 "demo_world 25 0" "demo_tracks 25"] s ne pc
  show ?thesis
    unfolding p13 by (simp add: p12)
qed

section \<open>Requests without a stored result set\<close>

lemma send_results_page_absent:
  "search_results ud = None \<Longrightarrow> send_results_page ud m = Inr []"
  by (rule send_results_page_empty) simp

text \<open>
  C9 (as stated) fails: a navigation request from a user who has not searched is
  answered only by the acknowledgement of the callback; no message is sent.
\<close>

theorem navigation_without_session_silent:
  "search_results (session fresh_world) = None \<and>
   sent (button_handler demo_env ''page_1'' fresh_world) = [Answer] \<and>
   raised (button_handler demo_env ''page_1'' fresh_world) = None"
proof -
  have "send_results_page ((session fresh_world)\<lparr>page := Some 1\<rparr>) True = Inr []"
    by (rule send_results_page_absent) (simp add: fresh_world_def)
  then show ?thesis
    unfolding page_1 button_handler_page [OF refl] by (simp add: fresh_world_def)
qed

text \<open>
  C9 (as it holds). For a user with no stored result set, a download request is answered
  with the message that the track was not found and nothing is downloaded or changed; a
  navigation request is acknowledged without any message, and only stores the requested
  page. Neither starts a download.
\<close>

theorem requests_without_session:
  assumes "search_results (session w) = None"
  shows "button_handler ev (''dl_'' @ py_str R) w =
           \<lparr>after = w, sent = [Answer, EditText TrackNotFound], raised = None\<rparr> \<and>
         button_handler ev (''page_'' @ py_str N) w =
           \<lparr>after = w\<lparr>session := (session w)\<lparr>page := Some N\<rparr>\<rparr>, sent = [Answer], raised = None\<rparr>"
proof
  show "button_handler ev (''dl_'' @ py_str R) w =
           \<lparr>after = w, sent = [Answer, EditText TrackNotFound], raised = None\<rparr>"
  proof -
    have "R < 0 \<or> int (length (case search_results (session w) of None \<Rightarrow> [] | Some ts \<Rightarrow> ts)) \<le> R"
      using assms by (simp add: linorder_not_less [symmetric])
    then show ?thesis
      unfolding button_handler_dl [OF refl] by (simp only: if_True)
  qed
  have "send_results_page ((session w)\<lparr>page := Some N\<rparr>) True = Inr []"
    by (rule send_results_page_absent) (simp add: assms)
  then show "button_handler ev (''page_'' @ py_str N) w =
           \<lparr>after = w\<lparr>session := (session w)\<lparr>page := Some N\<rparr>\<rparr>, sent = [Answer], raised = None\<rparr>"
    unfolding button_handler_page [OF refl] by simp
qed

theorem requests_without_session_witness:
  "search_results (session fresh_world) = None \<and>
   button_handler demo_env ''dl_0'' fresh_world =
     \<lparr>after = fresh_world, sent = [Answer, EditText TrackNotFound], raised = None\<rparr> \<and>
   button_handler demo_env ''page_1'' fresh_world =
     \<lparr>after = \<lparr>session = \<lparr>search_results = None, page = Some 1\<rparr>, files = {}\<rparr>,
      sent = [Answer], raised = None\<rparr>"
proof -
  have s: "search_results (session fresh_world) = None" by (simp add: fresh_world_def)
  have d: "''dl_0'' = ''dl_'' @ py_str 0" using py_str_small by simp
  from requests_without_session [OF s, of demo_env 0 1]
  show ?thesis
    unfolding d page_1 using s by (simp add: fresh_world_def)
qed

section \<open>The stored page and the result set\<close>

lemma session_after_search:
  assumes "args \<noteq> []" and "search_youtube (ydl_search ev) (py_join '' '' args) 20 = tracks"
    and "tracks \<noteq> []"
  shows "session (after (search_command ev args w)) =
           (session w)\<lparr>search_results := Some tracks, page := Some 0\<rparr> \<and>
         files (after (search_command ev args w)) = files w"
  using assms unfolding search_command_def Let_def
  by (cases "send_results_page ((session w)\<lparr>search_results := Some tracks, page := Some 0\<rparr>) True")
    simp_all


lemma demo_search: "search_youtube (ydl_search demo_env) q n = demo_tracks 3"
  by (simp add: search_youtube_def demo_env_def demo_entry_def demo_tracks_def demo_track_def
      make_track_def dict_get_def falsy_def fmt_def empty_dict_def upt_rec)

lemma session_after_dl:
  "session (after (deliver ev t w)) = session w"
  by (simp add: deliver_def Let_def split: prod.splits option.splits)




section \<open>A new search\<close>

text \<open>
  C5. After a search that finds something, the stored session (the \<^verbatim>\<open>user_data\<close>
  of the user who searched) is exactly the new result set with page 0, whatever was
  stored before.
\<close>

theorem search_replaces_session:
  assumes "args \<noteq> []" and "search_youtube (ydl_search ev) (py_join '' '' args) 20 = tracks"
    and "tracks \<noteq> []"
  shows "session (after (search_command ev args w)) = \<lparr>search_results = Some tracks, page = Some 0\<rparr>"
proof -
  have "session (after (search_command ev args w)) =
      (session w)\<lparr>search_results := Some tracks, page := Some 0\<rparr>"
    using session_after_search [OF assms] by simp
  then show ?thesis by simp
qed

theorem search_replaces_session_witness:
  "[''imagine'', ''dragons''] \<noteq> [] \<and>
   search_youtube (ydl_search demo_env) (py_join '' '' [''imagine'', ''dragons'']) 20 = demo_tracks 3 \<and>
   demo_tracks 3 \<noteq> [] \<and>
   session (demo_world 25 2) = \<lparr>search_results = Some (demo_tracks 25), page = Some 2\<rparr> \<and>
   session (after (search_command demo_env [''imagine'', ''dragons''] (demo_world 25 2))) =
     \<lparr>search_results = Some (demo_tracks 3), page = Some 0\<rparr>"
proof -
  have ne3: "demo_tracks 3 \<noteq> []" by (rule demo_tracks_nonempty) simp
  have a: "[''imagine'', ''dragons''] \<noteq> []" by simp
  from search_replaces_session [OF a demo_search ne3, of "demo_world 25 2"]
  show ?thesis
    using ne3 demo_search by (simp add: demo_world_def)
qed

section \<open>Download requests\<close>

lemma send_results_page_total:
  assumes "search_results ud = Some tracks" and "tracks \<noteq> []" and "page ud = Some p"
    and "\<forall>t\<in>set tracks. renders t"
  shows "\<exists>acts. send_results_page ud m = Inr acts"
proof -
  have "\<forall>t\<in>set (py_slice tracks (p * 10) (min (p * 10 + 10) (int (length tracks)))). renders t"
    using assms(4) py_slice_subset [of tracks "p * 10" "min (p * 10 + 10) (int (length tracks))"]
    by blast
  from render_rows_total [OF this] obtain rows where
    "render_rows (p * 10 + 1) (py_slice tracks (p * 10) (min (p * 10 + 10) (int (length tracks)))) = Inr rows"
    by blast
  then show ?thesis
    unfolding send_results_page_unfold [OF assms(1,2,3)] by simp
qed

lemma page_button:
  assumes sr: "search_results ud = Some tracks" and pg: "page ud = Some p" and p0: "0 \<le> p"
    and R: "R < length tracks" and lo: "p * 10 \<le> int R" and hi: "int R < p * 10 + 10"
    and a: "send_results_page ud m = Inr acts"
  shows "\<exists>v. acts = [if m then EditText (ResultsPage v) else ReplyText (ResultsPage v)] \<and>
             keyboard v ! (R - nat (p * 10)) =
               [\<lparr>caption = TrackCaption (int R + 1) (take 40 (full_name (tracks ! R))),
                 callback_data = ''dl_'' @ py_str (int R)\<rparr>]"
proof -
  let ?n = "int (length tracks)"
  let ?e = "min (p * 10 + 10) ?n"
  let ?slice = "py_slice tracks (p * 10) ?e"
  let ?k = "R - nat (p * 10)"
  have ne: "tracks \<noteq> []" using R by auto
  note unfold = send_results_page_unfold [OF sr ne pg, of m]
  from a obtain rows where rows: "render_rows (p * 10 + 1) ?slice = Inr rows"
    unfolding unfold by (cases "render_rows (p * 10 + 1) ?slice") auto
  define v where "v =
    \<lparr>shown_page = p + 1, shown_pages = page_count (length tracks),
     shown_lines = map fst rows,
     keyboard = map snd rows @
       (if nav_buttons p ?e ?n \<noteq> [] then [nav_buttons p ?e ?n] else [])\<rparr>"
  have acts: "acts = [if m then EditText (ResultsPage v) else ReplyText (ResultsPage v)]"
    using a unfolding unfold rows v_def by simp
  have a0: "0 \<le> p * 10" using p0 by simp
  have lt: "p * 10 < ?n" using lo R by linarith
  have k10: "?k < 10" using lo hi p0 by linarith
  have kR: "nat (p * 10) + ?k = R" using lo p0 by linarith
  have kl: "nat (p * 10) + ?k < length tracks" using kR R by simp
  have len: "length ?slice = min 10 (length tracks - nat (p * 10))"
    by (rule py_slice_page_length [OF a0 lt])
  have ks: "?k < length ?slice" unfolding len using k10 kl by linarith
  have nth: "?slice ! ?k = tracks ! R"
    using py_slice_page_nth [OF a0 kl k10] kR by simp
  have idx: "p * 10 + 1 + int ?k = int R + 1" using kR p0 by linarith
  have "snd (rows ! ?k) =
     [\<lparr>caption = TrackCaption (p * 10 + 1 + int ?k) (take 40 (full_name (?slice ! ?k))),
       callback_data = ''dl_'' @ py_str (p * 10 + 1 + int ?k - 1)\<rparr>]"
    by (rule render_rows_nth [OF rows ks])
  then have row: "snd (rows ! ?k) =
     [\<lparr>caption = TrackCaption (int R + 1) (take 40 (full_name (tracks ! R))),
       callback_data = ''dl_'' @ py_str (int R)\<rparr>]"
    unfolding nth idx by simp
  have kr: "?k < length rows" using ks render_rows_length [OF rows] by simp
  then have "keyboard v ! ?k = snd (rows ! ?k)"
    by (simp add: v_def nth_append)
  then have kb: "keyboard v ! ?k =
     [\<lparr>caption = TrackCaption (int R + 1) (take 40 (full_name (tracks ! R))),
       callback_data = ''dl_'' @ py_str (int R)\<rparr>]"
    by (simp only: row)
  show ?thesis
    by (rule exI [of _ v], rule conjI, rule acts, rule kb)
qed

lemma button_handler_rank:
  assumes "search_results (session w) = Some tracks" and "R < length tracks"
  shows "button_handler ev (''dl_'' @ py_str (int R)) w =
     (deliver ev (tracks ! R) w)\<lparr>sent := Answer # sent (deliver ev (tracks ! R) w)\<rparr>"
  unfolding button_handler_dl [OF refl] using assms by simp

lemma deliver_start:
  "take 2 (sent (deliver ev t w)) =
     [ReplyText (Downloading (full_name t)),
      Download (''https://www.youtube.com/watch?v='' @ fmt (video_id t))]"
  by (simp add: deliver_def Let_def split: prod.splits option.splits)

text \<open>
  C7. For a stored result set with more than \<open>R\<close> tracks: the callback data that
  \<^verbatim>\<open>send_results_page\<close> puts on the button of rank \<open>R\<close> (shown on the page that holds
  it, in row \<open>R - page * 10\<close>, numbered \<open>R + 1\<close>) is \<^verbatim>\<open>dl_R\<close>; decoding it yields
  \<open>R\<close>; and the handler then downloads the track at position \<open>R\<close> of the stored list,
  whatever page is stored at that moment.
\<close>

theorem download_rank_roundtrip:
  assumes "search_results (session w) = Some tracks" and "R < length tracks"
  shows "py_int (py_split (CHR ''_'') (''dl_'' @ py_str (int R)) ! 1) = Inr (int R) \<and>
         button_handler ev (''dl_'' @ py_str (int R)) w =
           (deliver ev (tracks ! R) w)\<lparr>sent := Answer # sent (deliver ev (tracks ! R) w)\<rparr> \<and>
         take 3 (sent (button_handler ev (''dl_'' @ py_str (int R)) w)) =
           [Answer, ReplyText (Downloading (full_name (tracks ! R))),
            Download (''https://www.youtube.com/watch?v='' @ fmt (video_id (tracks ! R)))] \<and>
         (page (session w) = Some p \<and> 0 \<le> p \<and> p * RESULTS_PER_PAGE \<le> int R \<and>
          int R < p * RESULTS_PER_PAGE + RESULTS_PER_PAGE \<and>
          send_results_page (session w) m = Inr acts \<longrightarrow>
            (\<exists>v. acts = [if m then EditText (ResultsPage v) else ReplyText (ResultsPage v)] \<and>
                 keyboard v ! (R - nat (p * RESULTS_PER_PAGE)) =
                   [\<lparr>caption = TrackCaption (int R + 1) (take 40 (full_name (tracks ! R))),
                     callback_data = ''dl_'' @ py_str (int R)\<rparr>]))"
proof (intro conjI impI)
  show "py_int (py_split (CHR ''_'') (''dl_'' @ py_str (int R)) ! 1) = Inr (int R)"
    unfolding split_dl by (rule py_int_py_str)
  show h: "button_handler ev (''dl_'' @ py_str (int R)) w =
           (deliver ev (tracks ! R) w)\<lparr>sent := Answer # sent (deliver ev (tracks ! R) w)\<rparr>"
    by (rule button_handler_rank [OF assms])
  have "take 3 (Answer # sent (deliver ev (tracks ! R) w)) =
      Answer # take 2 (sent (deliver ev (tracks ! R) w))"
    by (simp add: numeral_3_eq_3 numeral_2_eq_2)
  then show "take 3 (sent (button_handler ev (''dl_'' @ py_str (int R)) w)) =
           [Answer, ReplyText (Downloading (full_name (tracks ! R))),
            Download (''https://www.youtube.com/watch?v='' @ fmt (video_id (tracks ! R)))]"
    unfolding h deliver_start by simp
next
  assume a: "page (session w) = Some p \<and> 0 \<le> p \<and> p * RESULTS_PER_PAGE \<le> int R \<and>
          int R < p * RESULTS_PER_PAGE + RESULTS_PER_PAGE \<and>
          send_results_page (session w) m = Inr acts"
  then have "page (session w) = Some p" "0 \<le> p" "p * 10 \<le> int R" "int R < p * 10 + 10"
    "send_results_page (session w) m = Inr acts"
    by (simp_all add: RESULTS_PER_PAGE_def)
  from page_button [OF assms(1) this(1,2) assms(2) this(3,4,5)]
  show "\<exists>v. acts = [if m then EditText (ResultsPage v) else ReplyText (ResultsPage v)] \<and>
                 keyboard v ! (R - nat (p * RESULTS_PER_PAGE)) =
                   [\<lparr>caption = TrackCaption (int R + 1) (take 40 (full_name (tracks ! R))),
                     callback_data = ''dl_'' @ py_str (int R)\<rparr>]"
    by (simp only: RESULTS_PER_PAGE_def)
qed

theorem download_rank_roundtrip_witness:
  "search_results (session (demo_world 25 1)) = Some (demo_tracks 25) \<and>
   13 < length (demo_tracks 25) \<and>
   py_int (py_split (CHR ''_'') ''dl_13'' ! 1) = Inr 13 \<and>
   take 3 (sent (button_handler demo_env ''dl_13'' (demo_world 25 0))) =
     [Answer, ReplyText (Downloading (full_name (demo_track 13))),
      Download (''https://www.youtube.com/watch?v='' @ fmt (video_id (demo_track 13)))] \<and>
   (\<exists>v. send_results_page (session (demo_world 25 1)) True = Inr [EditText (ResultsPage v)] \<and>
        keyboard v ! 3 =
          [\<lparr>caption = TrackCaption 14 (take 40 (full_name (demo_track 13))),
            callback_data = ''dl_13''\<rparr>])"
proof -
  have s0: "search_results (session (demo_world 25 0)) = Some (demo_tracks 25)"
    and s1: "search_results (session (demo_world 25 1)) = Some (demo_tracks 25)"
    and p1: "page (session (demo_world 25 1)) = Some 1"
    by (simp_all add: demo_world_session)
  have l: "(13::nat) < length (demo_tracks 25)" by (simp add: length_demo_tracks)
  have n: "demo_tracks 25 ! 13 = demo_track 13" by (rule demo_tracks_nth) simp
  have ne: "demo_tracks 25 \<noteq> []" by (rule demo_tracks_nonempty) simp
  have d: "''dl_13'' = ''dl_'' @ py_str (int 13)" using py_str_small by simp
  have k: "13 - nat (1 * RESULTS_PER_PAGE) = 3" by (simp add: RESULTS_PER_PAGE_def)
  obtain acts where a: "send_results_page (session (demo_world 25 1)) True = Inr acts"
    using send_results_page_total [OF s1 ne p1 renders_demo_tracks] by blast
  have b: "page (session (demo_world 25 1)) = Some 1 \<and> (0::int) \<le> 1 \<and>
      1 * RESULTS_PER_PAGE \<le> int 13 \<and> int 13 < 1 * RESULTS_PER_PAGE + RESULTS_PER_PAGE \<and>
      send_results_page (session (demo_world 25 1)) True = Inr acts"
    using p1 a by (simp add: RESULTS_PER_PAGE_def)
  note t0 = download_rank_roundtrip [OF s0 l, of demo_env]
  note t1 = download_rank_roundtrip [OF s1 l, of demo_env 1 True acts]
  from t1 b obtain v where v: "acts = [EditText (ResultsPage v)]"
    "keyboard v ! (13 - nat (1 * RESULTS_PER_PAGE)) =
       [\<lparr>caption = TrackCaption (int 13 + 1) (take 40 (full_name (demo_tracks 25 ! 13))),
         callback_data = ''dl_'' @ py_str (int 13)\<rparr>]"
    by auto
  have kb: "keyboard v ! 3 =
       [\<lparr>caption = TrackCaption 14 (take 40 (full_name (demo_track 13))), callback_data = ''dl_13''\<rparr>]"
    using v(2) unfolding k n d [symmetric] by simp
  have c1: "py_int (py_split (CHR ''_'') ''dl_13'' ! 1) = Inr 13"
    using conjunct1 [OF t0] unfolding d by simp
  have c2: "take 3 (sent (button_handler demo_env ''dl_13'' (demo_world 25 0))) =
     [Answer, ReplyText (Downloading (full_name (demo_track 13))),
      Download (''https://www.youtube.com/watch?v='' @ fmt (video_id (demo_track 13)))]"
    using conjunct1 [OF conjunct2 [OF conjunct2 [OF t0]]] unfolding d n .
  have c3: "\<exists>v. send_results_page (session (demo_world 25 1)) True = Inr [EditText (ResultsPage v)] \<and>
        keyboard v ! 3 =
          [\<lparr>caption = TrackCaption 14 (take 40 (full_name (demo_track 13))),
            callback_data = ''dl_13''\<rparr>]"
    using a v(1) kb by blast
  from s1 l c1 c2 c3 show ?thesis by (intro conjI)
qed

section \<open>Failures of the engine\<close>

lemma search_youtube_raised:
  "ydl (''ytsearch'' @ py_str n @ '':'' @ q) = Raised e \<Longrightarrow> search_youtube ydl q n = []"
  by (simp add: search_youtube_def)

lemma search_youtube_nothing:
  "ydl (''ytsearch'' @ py_str n @ '':'' @ q) = Returned (Some (Some [])) \<Longrightarrow>
   search_youtube ydl q n = []"
  by (simp add: search_youtube_def)

lemma search_command_nothing:
  "args \<noteq> [] \<Longrightarrow> search_youtube (ydl_search ev) (py_join '' '' args) 20 = [] \<Longrightarrow>
   search_command ev args w =
     \<lparr>after = w, sent = [ReplyText (Searching (py_join '' '' args)), EditText NothingFound],
      raised = None\<rparr>"
  by (simp add: search_command_def)

text \<open>
  C4 (as stated) fails: a search whose engine raises returns the same empty list as a
  search that finds nothing, so the caller cannot tell the two apart.
\<close>

theorem engine_failure_looks_empty:
  "search_youtube failing_search ''believer'' 20 = [] \<and>
   search_youtube empty_search ''believer'' 20 = [] \<and>
   failing_search ''ytsearch20:believer'' = Raised EngineError \<and>
   empty_search ''ytsearch20:believer'' = Returned (Some (Some []))"
  by (simp add: search_youtube_def failing_search_def empty_search_def)

text \<open>
  C4 (as it holds). The catalog search never raises: it returns the empty list when the
  engine finds nothing and also when the engine raises (the exception is logged and
  dropped), and \<^verbatim>\<open>search_command\<close> answers both with the same message that nothing was
  found.
\<close>

theorem search_never_raises:
  "(ydl (''ytsearch'' @ py_str n @ '':'' @ q) = Returned (Some (Some [])) \<longrightarrow>
      search_youtube ydl q n = []) \<and>
   (ydl (''ytsearch'' @ py_str n @ '':'' @ q) = Raised e \<longrightarrow> search_youtube ydl q n = []) \<and>
   (args \<noteq> [] \<and>
    (ydl_search ev (''ytsearch'' @ py_str 20 @ '':'' @ py_join '' '' args) = Raised e \<or>
     ydl_search ev (''ytsearch'' @ py_str 20 @ '':'' @ py_join '' '' args) = Returned (Some (Some []))) \<longrightarrow>
      search_command ev args w =
        \<lparr>after = w, sent = [ReplyText (Searching (py_join '' '' args)), EditText NothingFound],
         raised = None\<rparr>)"
proof (intro conjI impI)
  assume "ydl (''ytsearch'' @ py_str n @ '':'' @ q) = Returned (Some (Some []))"
  then show "search_youtube ydl q n = []" by (rule search_youtube_nothing)
next
  assume "ydl (''ytsearch'' @ py_str n @ '':'' @ q) = Raised e"
  then show "search_youtube ydl q n = []" by (rule search_youtube_raised)
next
  assume a: "args \<noteq> [] \<and>
    (ydl_search ev (''ytsearch'' @ py_str 20 @ '':'' @ py_join '' '' args) = Raised e \<or>
     ydl_search ev (''ytsearch'' @ py_str 20 @ '':'' @ py_join '' '' args) = Returned (Some (Some [])))"
  then have "search_youtube (ydl_search ev) (py_join '' '' args) 20 = []"
    using search_youtube_raised search_youtube_nothing by blast
  with a show "search_command ev args w =
        \<lparr>after = w, sent = [ReplyText (Searching (py_join '' '' args)), EditText NothingFound],
         raised = None\<rparr>"
    using search_command_nothing by blast
qed

theorem search_never_raises_witness:
  "empty_search (''ytsearch'' @ py_str 20 @ '':'' @ ''believer'') = Returned (Some (Some [])) \<and>
   search_youtube empty_search ''believer'' 20 = [] \<and>
   failing_search (''ytsearch'' @ py_str 20 @ '':'' @ ''believer'') = Raised EngineError \<and>
   search_youtube failing_search ''believer'' 20 = [] \<and>
   search_command (demo_env\<lparr>ydl_search := failing_search\<rparr>) [''believer''] fresh_world =
     \<lparr>after = fresh_world, sent = [ReplyText (Searching ''believer''), EditText NothingFound],
      raised = None\<rparr>"
proof -
  have e: "empty_search (''ytsearch'' @ py_str 20 @ '':'' @ ''believer'') = Returned (Some (Some []))"
    by (simp add: empty_search_def)
  have f: "failing_search (''ytsearch'' @ py_str 20 @ '':'' @ ''believer'') = Raised EngineError"
    by (simp add: failing_search_def)
  have g: "ydl_search (demo_env\<lparr>ydl_search := failing_search\<rparr>)
      (''ytsearch'' @ py_str 20 @ '':'' @ py_join '' '' [''believer'']) = Raised EngineError"
    by (simp add: failing_search_def)
  from search_never_raises [of empty_search 20 "''believer''" EngineError "[''believer'']"
      "demo_env\<lparr>ydl_search := failing_search\<rparr>" fresh_world]
    search_never_raises [of failing_search 20 "''believer''" EngineError "[''believer'']"
      "demo_env\<lparr>ydl_search := failing_search\<rparr>" fresh_world]
    e f g
  show ?thesis by simp
qed

section \<open>The temp file of a download\<close>

lemma downloaded_file_demo_0:
  "downloaded_file ev (demo_track 0) =
     py_replace ''.%(ext)s'' ''.mp3'' (output_template ev (demo_track 0)) \<and>
   output_template demo_env (demo_track 0) = ''/tmp/Band - Song 0_1a2b3c4d.%(ext)s'' \<and>
   output_template flaky_env (demo_track 0) = ''/tmp/Band - Song 0_1a2b3c4d.%(ext)s''"
  by (simp add: downloaded_file_def output_template_def demo_env_def flaky_env_def demo_track_def
      clean_filename_def forbidden_chars_def hex8_demo str_nat.simps digit_char_def)

lemma mp3_demo_0:
  "py_replace ''.%(ext)s'' ''.mp3'' ''/tmp/Band - Song 0_1a2b3c4d.%(ext)s'' =
     ''/tmp/Band - Song 0_1a2b3c4d.mp3''"
  by simp

lemma deliver_demo:
  "deliver demo_env (demo_track 0) (demo_world 3 0) =
     \<lparr>after = \<lparr>session = \<lparr>search_results = Some (demo_tracks 3), page = Some 0\<rparr>, files = {}\<rparr>,
      sent = [ReplyText (Downloading ''Band - Song 0''),
              Download ''https://www.youtube.com/watch?v=id0'',
              ReplyAudio \<lparr>audio_path = ''/tmp/Band - Song 0_1a2b3c4d.mp3'', audio_title = ''Song 0'',
                          audio_performer = ''Band'', audio_caption = ''Band - Song 0'',
                          audio_duration = Some 65\<rparr>,
              Remove ''/tmp/Band - Song 0_1a2b3c4d.mp3'', DeleteStatus],
      raised = None\<rparr>"
  unfolding deliver_def download_track_as_mp3_def Let_def
    conjunct1 [OF downloaded_file_demo_0] conjunct1 [OF conjunct2 [OF downloaded_file_demo_0]] mp3_demo_0
  by (simp add: demo_env_def demo_world_def demo_track_def fmt_def str_nat.simps digit_char_def)

lemma deliver_flaky:
  "deliver flaky_env (demo_track 0) (demo_world 3 0) =
     \<lparr>after = \<lparr>session = \<lparr>search_results = Some (demo_tracks 3), page = Some 0\<rparr>,
               files = {''/tmp/Band - Song 0_1a2b3c4d.mp3''}\<rparr>,
      sent = [ReplyText (Downloading ''Band - Song 0''),
              Download ''https://www.youtube.com/watch?v=id0'',
              ReplyAudio \<lparr>audio_path = ''/tmp/Band - Song 0_1a2b3c4d.mp3'', audio_title = ''Song 0'',
                          audio_performer = ''Band'', audio_caption = ''Band - Song 0'',
                          audio_duration = Some 65\<rparr>,
              EditText (DownloadError TransportError)],
      raised = None\<rparr>"
  unfolding deliver_def download_track_as_mp3_def Let_def
    conjunct1 [OF downloaded_file_demo_0] conjunct2 [OF conjunct2 [OF downloaded_file_demo_0]] mp3_demo_0
  by (simp add: flaky_env_def demo_env_def demo_world_def demo_track_def fmt_def str_nat.simps digit_char_def)

text \<open>
  C1 does not hold of the code. When the transport fails to deliver the audio message,
  the handler reports the error and leaves the MP3 file under \<^verbatim>\<open>/tmp\<close>: the file is
  removed only on the path where the delivery succeeded (the second call below, with the
  same engine and a transport that delivers).
\<close>

theorem temp_file_left_after_failed_delivery:
  "files (demo_world 3 0) = {} \<and>
   button_handler flaky_env ''dl_0'' (demo_world 3 0) =
     \<lparr>after = \<lparr>session = \<lparr>search_results = Some (demo_tracks 3), page = Some 0\<rparr>,
               files = {''/tmp/Band - Song 0_1a2b3c4d.mp3''}\<rparr>,
      sent = [Answer, ReplyText (Downloading ''Band - Song 0''),
              Download ''https://www.youtube.com/watch?v=id0'',
              ReplyAudio \<lparr>audio_path = ''/tmp/Band - Song 0_1a2b3c4d.mp3'', audio_title = ''Song 0'',
                          audio_performer = ''Band'', audio_caption = ''Band - Song 0'',
                          audio_duration = Some 65\<rparr>,
              EditText (DownloadError TransportError)],
      raised = None\<rparr> \<and>
   files (after (button_handler demo_env ''dl_0'' (demo_world 3 0))) = {} \<and>
   sent (button_handler demo_env ''dl_0'' (demo_world 3 0)) =
     [Answer, ReplyText (Downloading ''Band - Song 0''),
      Download ''https://www.youtube.com/watch?v=id0'',
      ReplyAudio \<lparr>audio_path = ''/tmp/Band - Song 0_1a2b3c4d.mp3'', audio_title = ''Song 0'',
                  audio_performer = ''Band'', audio_caption = ''Band - Song 0'',
                  audio_duration = Some 65\<rparr>,
      Remove ''/tmp/Band - Song 0_1a2b3c4d.mp3'', DeleteStatus]"
proof -
  have s: "search_results (session (demo_world 3 0)) = Some (demo_tracks 3)"
    by (simp add: demo_world_session)
  have l: "(0::nat) < length (demo_tracks 3)" by (simp add: length_demo_tracks)
  have n: "demo_tracks 3 ! 0 = demo_track 0" by (rule demo_tracks_nth) simp
  have d: "''dl_0'' = ''dl_'' @ py_str (int 0)" using py_str_small by simp
  show ?thesis
    unfolding d button_handler_rank [OF s l] n deliver_flaky deliver_demo
    by (simp add: demo_world_def)
qed

end
